theory Spec2Isabelle
  imports Complex_Main "HOL-Library.Char_ord" "HOL-Library.List_Lexorder"
begin

section \<open>JSON values and dictionaries\<close>

text \<open>
  The configuration is what \<^verbatim>\<open>json.load\<close> returns: a dictionary is an association
  list looked up with \<open>map_of\<close>, an integer literal is an \<open>int\<close>, a literal with a
  fraction or an exponent is a float, kept here as the rational number it denotes.
\<close>

datatype json =
    JNull
  | JBool bool
  | JInt int
  | JFloat rat
  | JString string
  | JArray "json list"
  | JObject "(string \<times> json) list"

type_synonym dict = "(string \<times> json) list"

section \<open>Errors\<close>

text \<open>
  Every exception the two modules can raise is a value. The payload keeps what the
  message of the source names (the rank, the paths, the shapes).
\<close>

datatype error =
    ConvNotSupported int
    \<comment> \<open>\<^verbatim>\<open>NotImplementedError(f'{n}D convolution is not supported')\<close>\<close>
  | PoolingNotSupported int
    \<comment> \<open>\<^verbatim>\<open>NotImplementedError(f'{n}D global average pooling is not supported')\<close>\<close>
  | ZeroDivisionError
  | IndexError
  | TypeError
  | AttributeError
  | KeyError string
  | KerasValueError
    \<comment> \<open>a \<^verbatim>\<open>ValueError\<close> raised inside a Keras layer (filters, shapes)\<close>
  | NoTiffFound string
    \<comment> \<open>\<^verbatim>\<open>RuntimeError(f'No TIFF file found in {raw_dir}')\<close>\<close>
  | FileCountMismatch string string
    \<comment> \<open>\<^verbatim>\<open>RuntimeError('"{raw_dir}" and "{gt_dir}" must contain the same number of TIFF files')\<close>\<close>
  | FileNotFoundError string
  | ShapeMismatch string "int list" string "int list"
    \<comment> \<open>\<^verbatim>\<open>ValueError('Raw and GT images must be the same size: ...')\<close>\<close>
  | DimensionMismatch
    \<comment> \<open>\<^verbatim>\<open>ValueError('All images must have the same number of dimensions')\<close>\<close>
  | InputShapeRank int json
    \<comment> \<open>\<^verbatim>\<open>ValueError(f'`input_shape` must be a {ndim}D array; received: {input_shape}')\<close>\<close>
  | BroadcastError
    \<comment> \<open>the \<^verbatim>\<open>ValueError\<close> of \<^verbatim>\<open>np.minimum\<close> on operands that do not broadcast\<close>
  | ValidationError
    \<comment> \<open>\<^verbatim>\<open>jsonschema.ValidationError\<close>\<close>

section \<open>The model graph (rcan/model.py)\<close>

subsection \<open>Symbolic tensors and graph nodes\<close>

text \<open>
  A symbolic Keras tensor has a static shape whose first entry is the batch axis
  (\<open>None\<close>) and whose last entry is the channel axis, and it remembers the graph node
  that produced it. The graph is the list of the nodes in creation order; a node records
  its layer and the nodes its inputs come from.
\<close>

type_synonym dim = "int option"

record tensor =
  producer :: nat
  shape :: "dim list"

datatype activation = Linear | Relu | Sigmoid

datatype layer =
    InputLayer
  | Standardise
  | Destandardise
  | Conv nat int int activation
    \<comment> \<open>rank (ConvnD), filters, kernel size, activation; padding is always 'same'\<close>
  | GlobalAveragePooling nat
  | Reshape "int list"
  | Multiply
  | Lambda rat
  | Add

type_synonym gnode = "layer \<times> nat list"
type_synonym graph = "gnode list"

text \<open>Graph construction threads the graph and stops at the first exception.\<close>

type_synonym 'a build = "graph \<Rightarrow> error + ('a \<times> graph)"

definition ret :: "'a \<Rightarrow> 'a build" where
  "ret a = (\<lambda>g. Inr (a, g))"

definition raise :: "error \<Rightarrow> 'a build" where
  "raise e = (\<lambda>g. Inl e)"

definition bnd :: "'a build \<Rightarrow> ('a \<Rightarrow> 'b build) \<Rightarrow> 'b build" where
  "bnd m f = (\<lambda>g. case m g of Inl e \<Rightarrow> Inl e | Inr (a, g') \<Rightarrow> f a g')"

definition call_layer :: "layer \<Rightarrow> tensor list \<Rightarrow> dim list \<Rightarrow> tensor build" where
  "call_layer l ins out_shape =
     (\<lambda>g. Inr (\<lparr>producer = length g, shape = out_shape\<rparr>, g @ [(l, map producer ins)]))"

subsection \<open>The Keras layers the module calls\<close>

text \<open>
  Keras is a library outside the repository. What the module relies on is written out
  here: the static output shape of each layer and the argument checks that make a layer
  call raise. A convolution is always called with \<^verbatim>\<open>padding='same'\<close> and the
  default stride 1, so its output keeps every axis but the last, which becomes the number
  of filters; Keras rejects a filter count that is not strictly positive and an input
  whose channel axis is undefined. \<^verbatim>\<open>Input\<close> prepends the batch axis and rejects a
  negative size; global average pooling keeps the batch and the channel axis.
\<close>

definition keras_Input :: "int list \<Rightarrow> tensor build" where
  "keras_Input input_shape =
     (if \<exists>d \<in> set input_shape. d < 0 then raise KerasValueError
      else call_layer InputLayer [] (None # map Some input_shape))"

definition keras_Conv :: "nat \<Rightarrow> dim \<Rightarrow> int \<Rightarrow> activation \<Rightarrow> tensor \<Rightarrow> tensor build" where
  "keras_Conv rank num_filters kernel_size act x =
     (case num_filters of
        None \<Rightarrow> raise KerasValueError
      | Some f \<Rightarrow>
          if f \<le> 0 then raise KerasValueError
          else if shape x = [] \<or> last (shape x) = None then raise KerasValueError
          else call_layer (Conv rank f kernel_size act) [x] (butlast (shape x) @ [Some f]))"

definition keras_GlobalAveragePooling :: "nat \<Rightarrow> tensor \<Rightarrow> tensor build" where
  "keras_GlobalAveragePooling rank x =
     (if shape x = [] then raise KerasValueError
      else call_layer (GlobalAveragePooling rank) [x] [hd (shape x), last (shape x)])"

text \<open>
  \<^verbatim>\<open>Reshape(target)\<close> keeps the batch axis and needs as many elements per sample
  as its input has, when that number is known.
\<close>

fun known_size :: "dim list \<Rightarrow> int option" where
  "known_size [] = Some 1"
| "known_size (None # ds) = None"
| "known_size (Some d # ds) = (case known_size ds of None \<Rightarrow> None | Some s \<Rightarrow> Some (d * s))"

definition keras_Reshape :: "dim list \<Rightarrow> tensor \<Rightarrow> tensor build" where
  "keras_Reshape target x =
     (if shape x = [] \<or> None \<in> set target then raise KerasValueError
      else case known_size (tl (shape x)) of
             None \<Rightarrow> call_layer (Reshape (map the target)) [x] (hd (shape x) # target)
           | Some s \<Rightarrow>
               if known_size target = Some s
               then call_layer (Reshape (map the target)) [x] (hd (shape x) # target)
               else raise KerasValueError)"

text \<open>
  \<^verbatim>\<open>Add\<close> and \<^verbatim>\<open>Multiply\<close> broadcast their two inputs axis by axis from the
  last axis: equal sizes stay, a size 1 stretches to the other size, an unknown size of
  both stays unknown, anything else is an error.
\<close>

fun broadcast_dim :: "dim \<Rightarrow> dim \<Rightarrow> error + dim" where
  "broadcast_dim None None = Inr None"
| "broadcast_dim None (Some j) = Inr (if j = 1 then None else Some j)"
| "broadcast_dim (Some i) None = Inr (if i = 1 then None else Some i)"
| "broadcast_dim (Some i) (Some j) =
     (if i = 1 then Inr (Some j) else if j = 1 then Inr (Some i)
      else if i = j then Inr (Some i) else Inl KerasValueError)"

fun broadcast_rev :: "dim list \<Rightarrow> dim list \<Rightarrow> error + dim list" where
  "broadcast_rev [] ys = Inr ys"
| "broadcast_rev (x # xs) [] = Inr (x # xs)"
| "broadcast_rev (x # xs) (y # ys) =
     (case broadcast_dim x y of
        Inl e \<Rightarrow> Inl e
      | Inr d \<Rightarrow> (case broadcast_rev xs ys of Inl e \<Rightarrow> Inl e | Inr ds \<Rightarrow> Inr (d # ds)))"

definition broadcast_shapes :: "dim list \<Rightarrow> dim list \<Rightarrow> error + dim list" where
  "broadcast_shapes s t =
     (case broadcast_rev (rev s) (rev t) of Inl e \<Rightarrow> Inl e | Inr ds \<Rightarrow> Inr (rev ds))"

definition keras_merge :: "layer \<Rightarrow> tensor \<Rightarrow> tensor \<Rightarrow> tensor build" where
  "keras_merge l x y =
     (case broadcast_shapes (shape x) (shape y) of
        Inl e \<Rightarrow> raise e
      | Inr s \<Rightarrow> call_layer l [x, y] s)"

definition keras_Lambda :: "rat \<Rightarrow> tensor \<Rightarrow> tensor build" where
  "keras_Lambda s x = call_layer (Lambda s) [x] (shape x)"

subsection \<open>The functions of the module\<close>

text \<open>
  The functions keep their names without the leading underscore. A shape is read with the
  batch axis, so that the spatial rank is the length of the shape less 2.
\<close>

definition get_spatial_ndim :: "tensor \<Rightarrow> int" where
  "get_spatial_ndim x = int (length (shape x)) - 2"

definition get_num_channels :: "tensor \<Rightarrow> dim build" where
  "get_num_channels x = (if shape x = [] then raise IndexError else ret (last (shape x)))"

definition conv :: "tensor \<Rightarrow> dim \<Rightarrow> int \<Rightarrow> activation \<Rightarrow> tensor build" where
  "conv x num_filters kernel_size act =
     (let n = get_spatial_ndim x in
      if n = 1 then keras_Conv 1 num_filters kernel_size act x
      else if n = 2 then keras_Conv 2 num_filters kernel_size act x
      else if n = 3 then keras_Conv 3 num_filters kernel_size act x
      else raise (ConvNotSupported n))"

definition global_average_pooling :: "tensor \<Rightarrow> tensor build" where
  "global_average_pooling x =
     (let n = get_spatial_ndim x in
      if n = 2 then keras_GlobalAveragePooling 2 x
      else if n = 3 then keras_GlobalAveragePooling 3 x
      else raise (PoolingNotSupported n))"

text \<open>
  \<^verbatim>\<open>num_channels // reduction\<close>: Python's floor division (the \<open>div\<close> of \<open>int\<close>),
  which raises on a zero divisor and on an undefined channel count.
\<close>

definition attention_bottleneck :: "dim \<Rightarrow> int \<Rightarrow> error + int" where
  "attention_bottleneck num_channels reduction =
     (case num_channels of
        None \<Rightarrow> Inl TypeError
      | Some c \<Rightarrow> if reduction = 0 then Inl ZeroDivisionError else Inr (c div reduction))"

definition channel_attention_block :: "tensor \<Rightarrow> int \<Rightarrow> tensor build" where
  "channel_attention_block x reduction =
     bnd (get_num_channels x) (\<lambda>num_channels.
     bnd (global_average_pooling x) (\<lambda>y.
     bnd (keras_Reshape (replicate (nat (get_spatial_ndim x)) (Some 1) @ [num_channels]) y) (\<lambda>y.
     case attention_bottleneck num_channels reduction of
       Inl e \<Rightarrow> raise e
     | Inr b \<Rightarrow>
         bnd (conv y (Some b) 1 Relu) (\<lambda>y.
         bnd (conv y num_channels 1 Sigmoid) (\<lambda>y.
         keras_merge Multiply x y)))))"

text \<open>One pass of the loop body of \<^verbatim>\<open>_residual_channel_attention_blocks\<close>.\<close>

definition rcab :: "dim \<Rightarrow> int \<Rightarrow> rat \<Rightarrow> tensor \<Rightarrow> tensor build" where
  "rcab num_channels channel_reduction residual_scaling x =
     (let skip = x in
      bnd (conv x num_channels 3 Relu) (\<lambda>x.
      bnd (conv x num_channels 3 Linear) (\<lambda>x.
      bnd (channel_attention_block x channel_reduction) (\<lambda>x.
      bnd (if residual_scaling \<noteq> 1 then keras_Lambda residual_scaling x else ret x) (\<lambda>x.
      keras_merge Add x skip)))))"

fun rcab_loop :: "nat \<Rightarrow> dim \<Rightarrow> int \<Rightarrow> rat \<Rightarrow> tensor \<Rightarrow> tensor build" where
  "rcab_loop 0 num_channels channel_reduction residual_scaling x = ret x"
| "rcab_loop (Suc k) num_channels channel_reduction residual_scaling x =
     bnd (rcab num_channels channel_reduction residual_scaling x)
         (rcab_loop k num_channels channel_reduction residual_scaling)"

definition residual_channel_attention_blocks ::
  "tensor \<Rightarrow> int \<Rightarrow> int \<Rightarrow> rat \<Rightarrow> tensor build" where
  "residual_channel_attention_blocks x repeat channel_reduction residual_scaling =
     bnd (get_num_channels x) (\<lambda>num_channels.
     rcab_loop (nat repeat) num_channels channel_reduction residual_scaling x)"

text \<open>
  The loop over the residual groups of \<^verbatim>\<open>build_rcan\<close>; the first argument counts the
  iterations that are left, \<open>num_residual_groups\<close> is the unchanged parameter that the
  \<^verbatim>\<open>break\<close> tests.
\<close>

fun group_loop :: "nat \<Rightarrow> int \<Rightarrow> int \<Rightarrow> int \<Rightarrow> int \<Rightarrow> rat \<Rightarrow> tensor \<Rightarrow> tensor build" where
  "group_loop 0 num_residual_groups num_channels num_residual_blocks channel_reduction
     residual_scaling x = ret x"
| "group_loop (Suc k) num_residual_groups num_channels num_residual_blocks channel_reduction
     residual_scaling x =
     (let short_skip = x in
      bnd (residual_channel_attention_blocks x num_residual_blocks channel_reduction
             residual_scaling) (\<lambda>x.
      if num_residual_groups = 1 then ret x
      else
        bnd (conv x (Some num_channels) 3 Linear) (\<lambda>x.
        bnd (keras_merge Add x short_skip)
            (group_loop k num_residual_groups num_channels num_residual_blocks
               channel_reduction residual_scaling))))"

record model =
  model_inputs :: tensor
  model_outputs :: tensor
  model_graph :: graph

definition build_rcan_graph ::
  "int list \<Rightarrow> int \<Rightarrow> int \<Rightarrow> int \<Rightarrow> int \<Rightarrow> rat \<Rightarrow> int \<Rightarrow> (tensor \<times> tensor) build" where
  "build_rcan_graph input_shape num_channels num_residual_blocks num_residual_groups
     channel_reduction residual_scaling num_output_channels =
     bnd (if num_output_channels < 0
          then (if input_shape = [] then raise IndexError else ret (last input_shape))
          else ret num_output_channels) (\<lambda>num_output_channels.
     bnd (keras_Input input_shape) (\<lambda>inputs.
     bnd (call_layer Standardise [inputs] (shape inputs)) (\<lambda>x.
     bnd (conv x (Some num_channels) 3 Linear) (\<lambda>x.
     let long_skip = x in
     bnd (group_loop (nat num_residual_groups) num_residual_groups num_channels
            num_residual_blocks channel_reduction residual_scaling x) (\<lambda>x.
     bnd (conv x (Some num_channels) 3 Linear) (\<lambda>x.
     bnd (keras_merge Add x long_skip) (\<lambda>x.
     bnd (conv x (Some num_output_channels) 3 Linear) (\<lambda>x.
     bnd (call_layer Destandardise [x] (shape x)) (\<lambda>outputs.
     ret (inputs, outputs))))))))))"

definition build_rcan ::
  "int list \<Rightarrow> int \<Rightarrow> int \<Rightarrow> int \<Rightarrow> int \<Rightarrow> rat \<Rightarrow> int \<Rightarrow> error + model" where
  "build_rcan input_shape num_channels num_residual_blocks num_residual_groups
     channel_reduction residual_scaling num_output_channels =
     (case build_rcan_graph input_shape num_channels num_residual_blocks num_residual_groups
             channel_reduction residual_scaling num_output_channels [] of
        Inl e \<Rightarrow> Inl e
      | Inr ((inputs, outputs), g) \<Rightarrow>
          Inr \<lparr>model_inputs = inputs, model_outputs = outputs, model_graph = g\<rparr>)"

subsection \<open>Auxiliary notions for the graph proofs\<close>

fun is_conv :: "layer \<Rightarrow> bool" where
  "is_conv (Conv r f k a) = True"
| "is_conv l = False"

definition count_layers :: "(layer \<Rightarrow> bool) \<Rightarrow> graph \<Rightarrow> nat" where
  "count_layers P g = length (filter (\<lambda>n. P (fst n)) g)"

definition image_shape :: "int list \<Rightarrow> int \<Rightarrow> dim list" where
  "image_shape sp c = None # map Some sp @ [Some c]"

fun is_add :: "layer \<Rightarrow> bool" where
  "is_add Add = True"
| "is_add l = False"

definition attention_nodes :: "nat \<Rightarrow> int \<Rightarrow> int \<Rightarrow> nat \<Rightarrow> nat \<Rightarrow> graph" where
  "attention_nodes n c b px k =
     [(GlobalAveragePooling n, [px]),
      (Reshape (replicate n 1 @ [c]), [k]),
      (Conv n b 1 Relu, [k + 1]),
      (Conv n c 1 Sigmoid, [k + 2]),
      (Multiply, [px, k + 3])]"

definition appends :: "tensor build \<Rightarrow> graph \<Rightarrow> dim list \<Rightarrow> nat \<Rightarrow> nat \<Rightarrow> nat \<Rightarrow> bool" where
  "appends m g s n n_conv n_add \<longleftrightarrow>
     (\<exists>y ns. m g = Inr (y, g @ ns) \<and> shape y = s \<and> length ns = n
        \<and> count_layers is_conv ns = n_conv \<and> count_layers is_add ns = n_add)"

definition rcab_size :: "rat \<Rightarrow> nat" where
  "rcab_size residual_scaling = (if residual_scaling \<noteq> 1 then 9 else 8)"

definition attention_ok :: "int list \<Rightarrow> int \<Rightarrow> int \<Rightarrow> bool" where
  "attention_ok sp c cr \<longleftrightarrow> length sp \<in> {2, 3} \<and> cr \<noteq> 0 \<and> 0 < c div cr \<and> 0 < c"

definition group_size :: "int \<Rightarrow> rat \<Rightarrow> nat" where
  "group_size nb rs = nat nb * rcab_size rs + 2"

definition groups_nodes :: "int \<Rightarrow> int \<Rightarrow> rat \<Rightarrow> nat" where
  "groups_nodes ng nb rs =
     (if ng = 1 then nat nb * rcab_size rs else nat ng * group_size nb rs)"

definition groups_convs :: "int \<Rightarrow> int \<Rightarrow> nat" where
  "groups_convs ng nb = (if ng = 1 then 4 * nat nb else nat ng * (4 * nat nb + 1))"

definition groups_adds :: "int \<Rightarrow> int \<Rightarrow> nat" where
  "groups_adds ng nb = (if ng = 1 then nat nb else nat ng * (nat nb + 1))"

definition rcan_buildable :: "int list \<Rightarrow> int \<Rightarrow> int \<Rightarrow> int \<Rightarrow> int \<Rightarrow> int \<Rightarrow> bool" where
  "rcan_buildable input_shape nc nb ng cr noc \<longleftrightarrow>
     length input_shape \<in> {2, 3, 4} \<and> (\<forall>d \<in> set input_shape. 0 \<le> d) \<and> 0 < nc
     \<and> (0 < ng \<and> 0 < nb \<longrightarrow> attention_ok (butlast input_shape) nc cr)
     \<and> 0 < (if noc < 0 then last input_shape else noc)"

definition valid_rcan_arguments :: "int list \<Rightarrow> int \<Rightarrow> int \<Rightarrow> int \<Rightarrow> bool" where
  "valid_rcan_arguments input_shape num_channels channel_reduction num_output_channels \<longleftrightarrow>
     length input_shape \<in> {3, 4} \<and> (\<forall>d \<in> set input_shape. 0 < d) \<and> 0 < num_channels
     \<and> channel_reduction \<noteq> 0 \<and> 0 < num_channels div channel_reduction
     \<and> num_output_channels \<noteq> 0"

section \<open>Configuration and data verification (train.py)\<close>

subsection \<open>Operations on JSON values\<close>

text \<open>Python's truth value of an object, as \<^verbatim>\<open>not image_pair_list\<close> tests it.\<close>

fun truthy :: "json \<Rightarrow> bool" where
  "truthy JNull = False"
| "truthy (JBool b) = b"
| "truthy (JInt i) = (i \<noteq> 0)"
| "truthy (JFloat r) = (r \<noteq> 0)"
| "truthy (JString s) = (s \<noteq> [])"
| "truthy (JArray xs) = (xs \<noteq> [])"
| "truthy (JObject kvs) = (kvs \<noteq> [])"

text \<open>\<^verbatim>\<open>obj[key]\<close> with a string key: only a dictionary can be subscripted so.\<close>

fun subscript :: "json \<Rightarrow> string \<Rightarrow> error + json" where
  "subscript (JObject kvs) k = (case map_of kvs k of None \<Rightarrow> Inl (KeyError k) | Some v \<Rightarrow> Inr v)"
| "subscript j k = Inl TypeError"

fun as_path :: "json \<Rightarrow> error + string" where
  "as_path (JString s) = Inr s"
| "as_path j = Inl TypeError"

subsection \<open>The files\<close>

text \<open>
  The file system is a parameter: \<open>glob_tif d\<close> lists, in the order of the operating
  system, the paths \<^verbatim>\<open>pathlib.Path(d).glob('*.tif')\<close> yields (as strings; none when
  the directory does not exist), and \<open>imread_shape p\<close> is the shape of the array
  \<^verbatim>\<open>tifffile.imread\<close> reads from the path \<open>p\<close>, or \<open>None\<close> when there is no such
  file. The paths of one directory share their parent, so that sorting the path objects
  is sorting these strings.
\<close>

record filesystem =
  glob_tif :: "string \<Rightarrow> string list"
  imread_shape :: "string \<Rightarrow> int list option"

definition imread :: "filesystem \<Rightarrow> json \<Rightarrow> error + int list" where
  "imread fs j =
     (case as_path j of
        Inl e \<Rightarrow> Inl e
      | Inr p \<Rightarrow> (case imread_shape fs p of None \<Rightarrow> Inl (FileNotFoundError p) | Some s \<Rightarrow> Inr s))"

subsection \<open>\<^verbatim>\<open>np.minimum\<close> on two shapes\<close>

text \<open>
  The operands are one-dimensional arrays: equal lengths give the element-wise minimum,
  an operand of length 1 is broadcast against the other, anything else raises.
\<close>

definition np_minimum :: "int list \<Rightarrow> int list \<Rightarrow> error + int list" where
  "np_minimum a b =
     (if length a = length b then Inr (map2 min a b)
      else if length a = 1 then Inr (map (min (hd a)) b)
      else if length b = 1 then Inr (map (\<lambda>x. min x (hd b)) a)
      else Inl BroadcastError)"

subsection \<open>\<^verbatim>\<open>load_data_paths\<close>\<close>

text \<open>The body of the branch for a data directory, up to the pairs it appends.\<close>

definition image_pair :: "string \<Rightarrow> string \<Rightarrow> json" where
  "image_pair raw_file gt_file = JObject [(''raw'', JString raw_file), (''gt'', JString gt_file)]"

definition data_dir_pairs :: "filesystem \<Rightarrow> json \<Rightarrow> error + json list" where
  "data_dir_pairs fs data_dir =
     (case subscript data_dir ''raw'' of Inl e \<Rightarrow> Inl e | Inr r \<Rightarrow>
      case as_path r of Inl e \<Rightarrow> Inl e | Inr raw_dir \<Rightarrow>
      case subscript data_dir ''gt'' of Inl e \<Rightarrow> Inl e | Inr g \<Rightarrow>
      case as_path g of Inl e \<Rightarrow> Inl e | Inr gt_dir \<Rightarrow>
        (let raw_files = sort (glob_tif fs raw_dir);
             gt_files = sort (glob_tif fs gt_dir)
         in if raw_files = [] then Inl (NoTiffFound raw_dir)
            else if length raw_files \<noteq> length gt_files
            then Inl (FileCountMismatch raw_dir gt_dir)
            else Inr (map2 image_pair raw_files gt_files)))"

text \<open>
  One pass of the verification loop up to the comparison: the two paths of the pair and
  the shapes of the two images.
\<close>

definition read_pair :: "filesystem \<Rightarrow> json \<Rightarrow> error + (json \<times> int list \<times> json \<times> int list)" where
  "read_pair fs p =
     (case subscript p ''raw'' of Inl e \<Rightarrow> Inl e | Inr raw_file \<Rightarrow>
      case subscript p ''gt'' of Inl e \<Rightarrow> Inl e | Inr gt_file \<Rightarrow>
      case imread fs raw_file of Inl e \<Rightarrow> Inl e | Inr raw \<Rightarrow>
      case imread fs gt_file of Inl e \<Rightarrow> Inl e | Inr gt \<Rightarrow>
        Inr (raw_file, raw, gt_file, gt))"

definition path_text :: "json \<Rightarrow> string" where
  "path_text j = (case j of JString s \<Rightarrow> s | _ \<Rightarrow> [])"

text \<open>The verification loop; its result is \<^verbatim>\<open>input_shape_list\<close>.\<close>

fun read_pairs :: "filesystem \<Rightarrow> json list \<Rightarrow> error + int list list" where
  "read_pairs fs [] = Inr []"
| "read_pairs fs (p # ps) =
     (case read_pair fs p of
        Inl e \<Rightarrow> Inl e
      | Inr (raw_file, raw, gt_file, gt) \<Rightarrow>
          if raw \<noteq> gt
          then Inl (ShapeMismatch (path_text raw_file) raw (path_text gt_file) gt)
          else (case read_pairs fs ps of
                  Inl e \<Rightarrow> Inl e
                | Inr input_shape_list \<Rightarrow> Inr (raw # input_shape_list)))"

text \<open>The loop over \<^verbatim>\<open>ndim_list\<close>, given the first entry.\<close>

definition check_ndims :: "int list list \<Rightarrow> error + unit" where
  "check_ndims input_shape_list =
     (if \<exists>s \<in> set input_shape_list. length s \<noteq> length (hd input_shape_list)
      then Inl DimensionMismatch else Inr ())"

fun min_fold :: "int list \<Rightarrow> int list list \<Rightarrow> error + int list" where
  "min_fold min_input_shape [] = Inr min_input_shape"
| "min_fold min_input_shape (input_shape # rest) =
     (case np_minimum min_input_shape input_shape of
        Inl e \<Rightarrow> Inl e
      | Inr m \<Rightarrow> min_fold m rest)"

definition verify_pairs :: "filesystem \<Rightarrow> json list \<Rightarrow> error + int list" where
  "verify_pairs fs image_pair_list =
     (case read_pairs fs image_pair_list of
        Inl e \<Rightarrow> Inl e
      | Inr input_shape_list \<Rightarrow>
          (case check_ndims input_shape_list of
             Inl e \<Rightarrow> Inl e
           | Inr u \<Rightarrow>
               if input_shape_list = [] then Inl IndexError
               else min_fold (hd input_shape_list) input_shape_list))"

text \<open>
  \<^verbatim>\<open>image_pair_list.append\<close> exists on a list only; iterating over a value that is
  not a list and subscripting its elements with \<^verbatim>\<open>'raw'\<close> fails for every value that
  is true.
\<close>

definition append_pairs :: "json \<Rightarrow> json list \<Rightarrow> error + json" where
  "append_pairs image_pair_list new_pairs =
     (case image_pair_list of
        JArray xs \<Rightarrow> Inr (JArray (xs @ new_pairs))
      | _ \<Rightarrow> if new_pairs = [] then Inr image_pair_list else Inl AttributeError)"

definition load_data_paths ::
  "filesystem \<Rightarrow> dict \<Rightarrow> string \<Rightarrow> error + (json list \<times> int list) option" where
  "load_data_paths fs config data_type =
     (let image_pair_list =
            (case map_of config (data_type @ ''_image_pairs'') of None \<Rightarrow> JArray [] | Some v \<Rightarrow> v)
      in case (case map_of config (data_type @ ''_data_dir'') of
                 None \<Rightarrow> Inr image_pair_list
               | Some data_dir \<Rightarrow>
                   (case data_dir_pairs fs data_dir of
                      Inl e \<Rightarrow> Inl e
                    | Inr new_pairs \<Rightarrow> append_pairs image_pair_list new_pairs)) of
           Inl e \<Rightarrow> Inl e
         | Inr image_pair_list \<Rightarrow>
             if \<not> truthy image_pair_list then Inr None
             else (case image_pair_list of
                     JArray xs \<Rightarrow>
                       (case verify_pairs fs xs of
                          Inl e \<Rightarrow> Inl e
                        | Inr min_input_shape \<Rightarrow> Inr (Some (xs, min_input_shape)))
                   | _ \<Rightarrow> Inl TypeError))"

subsection \<open>The input shape the model is built with\<close>









subsection \<open>Auxiliary notions for the loader proofs\<close>

definition pair_shapes :: "filesystem \<Rightarrow> json \<Rightarrow> (int list \<times> int list) option" where
  "pair_shapes fs p =
     (case read_pair fs p of Inl e \<Rightarrow> None | Inr (raw_file, raw, gt_file, gt) \<Rightarrow> Some (raw, gt))"

text \<open>
  The element-wise minimum of a list of shapes, axis by axis, as the specification words
  it; the loader's fold is compared with it.
\<close>

definition elementwise_minimum :: "int list list \<Rightarrow> nat \<Rightarrow> int list" where
  "elementwise_minimum shapes n = map (\<lambda>i. Min ((\<lambda>s. s ! i) ` set shapes)) [0..<n]"

subsection \<open>Example file systems\<close>

definition empty_dirs :: filesystem where
  "empty_dirs = \<lparr>glob_tif = (\<lambda>d. []), imread_shape = (\<lambda>p. None)\<rparr>"

definition example_shapes :: "(string \<times> int list) list" where
  "example_shapes =
     [(''raw/a.tif'', [10, 100, 100]), (''gt/a.tif'', [10, 100, 100]),
      (''raw/b.tif'', [8, 120, 90]), (''gt/b.tif'', [8, 120, 90]),
      (''raw/c.tif'', [12, 100, 100]), (''gt/c.tif'', [12, 100, 100]),
      (''x_raw.tif'', [9, 200, 200]), (''x_gt.tif'', [9, 200, 200]),
      (''bad_gt.tif'', [9, 200, 100]), (''flat.tif'', [64, 64])]"

definition example_files :: filesystem where
  "example_files =
     \<lparr>glob_tif = (\<lambda>d. if d = ''raw'' then [''raw/c.tif'', ''raw/a.tif'', ''raw/b.tif'']
                       else if d = ''gt'' then [''gt/b.tif'', ''gt/c.tif'', ''gt/a.tif'']
                       else []),
      imread_shape = map_of example_shapes\<rparr>"

definition example_config :: dict where
  "example_config =
     [(''training_image_pairs'', JArray [image_pair ''x_raw.tif'' ''x_gt.tif'']),
      (''training_data_dir'', JObject [(''raw'', JString ''raw''), (''gt'', JString ''gt'')])]"


subsection \<open>The schema and the defaults\<close>
























section \<open>The normalisation layers (rcan/model.py)\<close>

text \<open>
  The two layers compute on floating-point tensors: each of \<^verbatim>\<open>tf.math.scalar_mul\<close>
  and \<^verbatim>\<open>tf.math.add\<close> returns its exact result rounded to the format of the
  tensor. A tensor is the list of its entries, an entry is the rational number the float
  denotes, and the rounding \<open>rnd\<close> of the format is a parameter; with the identity for
  \<open>rnd\<close> the layers compute in exact arithmetic.
\<close>

definition StandardiseLayer_call :: "(rat \<Rightarrow> rat) \<Rightarrow> rat list \<Rightarrow> rat list" where
  "StandardiseLayer_call rnd inputs = map (\<lambda>x. rnd (rnd (2 * x) + (- 1))) inputs"

definition DestandardiseLayer_call :: "(rat \<Rightarrow> rat) \<Rightarrow> rat list \<Rightarrow> rat list" where
  "DestandardiseLayer_call rnd inputs = map (\<lambda>x. rnd (rnd ((1 / 2) * x) + 1 / 2)) inputs"

definition StandardiseLayer_get_config :: dict where
  "StandardiseLayer_get_config = []"

definition DestandardiseLayer_get_config :: dict where
  "DestandardiseLayer_get_config = []"

text \<open>
  The format Keras gives the tensors by default is IEEE single precision: 24 significant
  bits, normal exponents from \<open>-126\<close> to \<open>127\<close>, rounding to the nearest value with ties
  to the even one. \<open>binade n p a\<close> is the power of two \<open>q\<close> with \<open>q \<le> a < 2 * q\<close>,
  searched upwards from \<open>p\<close> in at most \<open>n\<close> doublings; below the smallest normal number
  the spacing is constant. Overflow to infinity is not modelled.
\<close>

definition round_half_even :: "rat \<Rightarrow> int" where
  "round_half_even q =
     (let f = \<lfloor>q\<rfloor>; d = q - of_int f
      in if d < 1 / 2 then f else if 1 / 2 < d then f + 1 else if even f then f else f + 1)"

fun binade :: "nat \<Rightarrow> rat \<Rightarrow> rat \<Rightarrow> rat" where
  "binade 0 p a = p"
| "binade (Suc n) p a = (if a < 2 * p then p else binade n (2 * p) a)"

definition float32_spacing :: "rat \<Rightarrow> rat" where
  "float32_spacing x = binade 253 (1 / 2 ^ 126) \<bar>x\<bar> / 2 ^ 23"

definition float32_round :: "rat \<Rightarrow> rat" where
  "float32_round x = of_int (round_half_even (x / float32_spacing x)) * float32_spacing x"

section \<open>Properties of the model graph\<close>

lemma image_shape_simps [simp]:
  "length (image_shape sp c) = length sp + 2"
  "image_shape sp c \<noteq> []"
  "last (image_shape sp c) = Some c"
  "butlast (image_shape sp c) @ [Some d] = image_shape sp d"
  "hd (image_shape sp c) = None"
  by (simp_all add: image_shape_def butlast_append)

lemma count_layers_append [simp]:
  "count_layers P (g @ h) = count_layers P g + count_layers P h"
  by (simp add: count_layers_def)

lemma count_layers_Nil [simp]: "count_layers P [] = 0"
  by (simp add: count_layers_def)

lemma count_layers_Cons [simp]:
  "count_layers P (n # g) = (if P (fst n) then 1 else 0) + count_layers P g"
  by (simp add: count_layers_def)

lemma bnd_Inr:
  "bnd m f g = Inr r \<longleftrightarrow> (\<exists>a g'. m g = Inr (a, g') \<and> f a g' = Inr r)"
  by (auto simp: bnd_def split: sum.splits)

lemma ret_Inr [simp]: "ret a g = Inr r \<longleftrightarrow> r = (a, g)"
  by (auto simp: ret_def)

lemma raise_Inr [simp]: "raise e g \<noteq> Inr r"
  by (simp add: raise_def)

lemma call_layer_Inr [simp]:
  "call_layer l ins s g = Inr r \<longleftrightarrow>
     r = (\<lparr>producer = length g, shape = s\<rparr>, g @ [(l, map producer ins)])"
  by (auto simp: call_layer_def)

lemma conv_Inr:
  assumes "conv x f k a g = Inr (y, g')" and "shape x = image_shape sp c"
  shows "\<exists>d r. f = Some d \<and> 0 < d \<and> shape y = image_shape sp d \<and> producer y = length g
           \<and> length sp \<in> {1, 2, 3} \<and> g' = g @ [(Conv (length sp) d k a, [producer x])]"
  using assms
  by (auto simp: conv_def keras_Conv_def get_spatial_ndim_def Let_def
           split: if_splits option.splits)

lemma broadcast_rev_same: "broadcast_rev s s = Inr s"
proof (induction s)
  case Nil
  show ?case by simp
next
  case (Cons d s)
  have "broadcast_dim d d = Inr d" by (cases d) simp_all
  with Cons show ?case by simp
qed

lemma broadcast_shapes_same: "broadcast_shapes s s = Inr s"
  by (simp add: broadcast_shapes_def broadcast_rev_same)

lemma broadcast_dim_one: "broadcast_dim (Some i) (Some 1) = Inr (Some i)"
  by simp

lemma broadcast_rev_ones:
  "broadcast_rev (map Some xs @ [None]) (replicate (length xs) (Some 1) @ [None])
     = Inr (map Some xs @ [None])"
  by (induction xs) simp_all

lemma broadcast_shapes_ones:
  "broadcast_shapes (image_shape sp c) (image_shape (replicate (length sp) 1) c)
     = Inr (image_shape sp c)"
proof -
  have "broadcast_dim (Some c) (Some c) = Inr (Some c)" by simp
  moreover have "broadcast_rev (map Some (rev sp) @ [None])
       (replicate (length (rev sp)) (Some 1) @ [None]) = Inr (map Some (rev sp) @ [None])"
    by (rule broadcast_rev_ones)
  ultimately show ?thesis
    by (simp add: broadcast_shapes_def image_shape_def rev_map)
qed

lemma known_size_ones: "known_size (replicate n (Some 1) @ [Some c]) = Some c"
  by (induction n) simp_all

lemma keras_merge_same:
  "shape x = shape y \<Longrightarrow>
   keras_merge l x y g = Inr (\<lparr>producer = length g, shape = shape x\<rparr>, g @ [(l, [producer x, producer y])])"
  by (simp add: keras_merge_def broadcast_shapes_same call_layer_def)

lemma bnd_eq: "m g = Inr (a, g') \<Longrightarrow> bnd m f g = f a g'"
  by (simp add: bnd_def)

lemma conv_eq:
  assumes "shape x = image_shape sp c" and "length sp \<in> {1, 2, 3}" and "0 < d"
  shows "conv x (Some d) k a g =
           Inr (\<lparr>producer = length g, shape = image_shape sp d\<rparr>,
                g @ [(Conv (length sp) d k a, [producer x])])"
  using assms
  by (auto simp: conv_def keras_Conv_def get_spatial_ndim_def Let_def call_layer_def)

lemma pooling_eq:
  assumes "shape x = image_shape sp c" and "length sp \<in> {2, 3}"
  shows "global_average_pooling x g =
           Inr (\<lparr>producer = length g, shape = [None, Some c]\<rparr>,
                g @ [(GlobalAveragePooling (length sp), [producer x])])"
  using assms
  by (auto simp: global_average_pooling_def keras_GlobalAveragePooling_def
        get_spatial_ndim_def Let_def call_layer_def)

lemma reshape_eq:
  assumes "shape y = [None, Some c]"
  shows "keras_Reshape (replicate n (Some 1) @ [Some c]) y g =
           Inr (\<lparr>producer = length g, shape = image_shape (replicate n 1) c\<rparr>,
                g @ [(Reshape (replicate n 1 @ [c]), [producer y])])"
  using assms
  by (simp add: keras_Reshape_def known_size_ones call_layer_def image_shape_def)

lemma conv_lit:
  "length sp \<in> {1, 2, 3} \<Longrightarrow> 0 < d \<Longrightarrow>
   conv \<lparr>producer = p, shape = image_shape sp c\<rparr> (Some d) k a g =
     Inr (\<lparr>producer = length g, shape = image_shape sp d\<rparr>,
          g @ [(Conv (length sp) d k a, [p])])"
  using conv_eq [of "\<lparr>producer = p, shape = image_shape sp c\<rparr>" sp c d k a g] by simp

lemma merge_ones_lit:
  "shape x = image_shape sp c \<Longrightarrow>
   keras_merge l x \<lparr>producer = p, shape = image_shape (replicate (length sp) 1) c\<rparr> g =
     Inr (\<lparr>producer = length g, shape = image_shape sp c\<rparr>, g @ [(l, [producer x, p])])"
  by (simp add: keras_merge_def broadcast_shapes_ones call_layer_def)

lemma channel_attention_block_eq:
  assumes sh: "shape x = image_shape sp c" and n: "length sp \<in> {2, 3}"
    and r: "r \<noteq> 0" and b: "0 < c div r" and c: "0 < c"
  shows "channel_attention_block x r g =
           Inr (\<lparr>producer = length g + 4, shape = image_shape sp c\<rparr>,
                g @ attention_nodes (length sp) c (c div r) (producer x) (length g))"
proof -
  let ?n = "length sp"
  have nc: "get_num_channels x g = Inr (Some c, g)"
    using sh by (simp add: get_num_channels_def ret_def)
  have nd: "nat (get_spatial_ndim x) = ?n"
    using sh by (simp add: get_spatial_ndim_def)
  have p: "global_average_pooling x g =
             Inr (\<lparr>producer = length g, shape = [None, Some c]\<rparr>,
                  g @ [(GlobalAveragePooling ?n, [producer x])])"
    using sh n by (rule pooling_eq)
  have n1: "length (replicate ?n (1::int)) \<in> {1, 2, 3}" using n by auto
  have ab: "attention_bottleneck (Some c) r = Inr (c div r)"
    using r by (simp add: attention_bottleneck_def)
  show ?thesis
    unfolding channel_attention_block_def
    using n1 b c
    by (simp add: bnd_def nc p nd reshape_eq ab conv_lit merge_ones_lit [OF sh]
          attention_nodes_def)
qed

lemma channel_attention_block_lit:
  assumes "length sp \<in> {2, 3}" and "r \<noteq> 0" and "0 < c div r" and "0 < c"
  shows "channel_attention_block \<lparr>producer = p, shape = image_shape sp c\<rparr> r g =
           Inr (\<lparr>producer = length g + 4, shape = image_shape sp c\<rparr>,
                g @ attention_nodes (length sp) c (c div r) p (length g))"
  using channel_attention_block_eq [of "\<lparr>producer = p, shape = image_shape sp c\<rparr>" sp c r g] assms
  by simp

lemma pooling_Inr:
  assumes "global_average_pooling x g = Inr res" and "shape x = image_shape sp c"
  shows "length sp \<in> {2, 3}"
  using assms
  by (auto simp: global_average_pooling_def get_spatial_ndim_def Let_def split: if_splits)

lemma conv_pos: "conv x (Some d) k a g = Inr res \<Longrightarrow> 0 < d"
  by (auto simp: conv_def keras_Conv_def Let_def split: if_splits)

lemma channel_attention_block_Inr:
  assumes ok: "channel_attention_block x r g = Inr res" and sh: "shape x = image_shape sp c"
  shows "length sp \<in> {2, 3} \<and> r \<noteq> 0 \<and> 0 < c div r \<and> 0 < c"
proof -
  have nc: "get_num_channels x g = Inr (Some c, g)"
    using sh by (simp add: get_num_channels_def ret_def)
  from ok obtain y g1 where p: "global_average_pooling x g = Inr (y, g1)"
    unfolding channel_attention_block_def by (auto simp: bnd_def nc split: sum.splits)
  have n: "length sp \<in> {2, 3}" using p sh by (rule pooling_Inr)
  have nd: "nat (get_spatial_ndim x) = length sp"
    using sh by (simp add: get_spatial_ndim_def)
  have p': "global_average_pooling x g =
             Inr (\<lparr>producer = length g, shape = [None, Some c]\<rparr>,
                  g @ [(GlobalAveragePooling (length sp), [producer x])])"
    using sh n by (rule pooling_eq)
  have n1: "length (replicate (length sp) (1::int)) \<in> {1, 2, 3}" using n by auto
  have r: "r \<noteq> 0"
    using ok unfolding channel_attention_block_def
    by (auto simp: bnd_def nc p' nd reshape_eq attention_bottleneck_def)
  have ab: "attention_bottleneck (Some c) r = Inr (c div r)"
    using r by (simp add: attention_bottleneck_def)
  from ok obtain y1 g1 res1 where "conv y1 (Some (c div r)) 1 Relu g1 = Inr res1"
    unfolding channel_attention_block_def
    by (auto simp: bnd_def nc p' nd reshape_eq ab split: sum.splits)
  then have b: "0 < c div r" by (rule conv_pos)
  from ok obtain y2 g2 res2 where "conv y2 (Some c) 1 Sigmoid g2 = Inr res2"
    unfolding channel_attention_block_def using n1 b
    by (auto simp: bnd_def nc p' nd reshape_eq ab conv_lit split: sum.splits)
  then have c: "0 < c" by (rule conv_pos)
  from n r b c show ?thesis by simp
qed

lemma merge_same_lit:
  "shape y = s \<Longrightarrow>
   keras_merge l \<lparr>producer = p, shape = s\<rparr> y g =
     Inr (\<lparr>producer = length g, shape = s\<rparr>, g @ [(l, [p, producer y])])"
  using keras_merge_same [of "\<lparr>producer = p, shape = s\<rparr>" y l g] by simp

lemma rcab_eq:
  assumes sh: "shape x = image_shape sp c" and n: "length sp \<in> {2, 3}"
    and r: "cr \<noteq> 0" and b: "0 < c div cr" and c: "0 < c"
  shows "appends (rcab (Some c) cr rs x) g (image_shape sp c) (rcab_size rs) 4 1"
proof -
  have n1: "length sp \<in> {1, 2, 3}" using n by auto
  show ?thesis
    unfolding rcab_def appends_def rcab_size_def
    using n n1 r b c
    by (simp add: bnd_def Let_def conv_eq [OF sh n1 c] conv_lit channel_attention_block_lit
          keras_Lambda_def call_layer_def ret_def merge_same_lit [OF sh] attention_nodes_def)
qed

lemma rcab_Inr:
  assumes ok: "rcab (Some c) cr rs x g = Inr res" and sh: "shape x = image_shape sp c"
  shows "length sp \<in> {2, 3} \<and> cr \<noteq> 0 \<and> 0 < c div cr \<and> 0 < c"
proof -
  from ok obtain y1 g1 where c1: "conv x (Some c) 3 Relu g = Inr (y1, g1)"
    unfolding rcab_def by (auto simp: bnd_def Let_def split: sum.splits)
  from conv_Inr [OF c1 sh] have s1: "shape y1 = image_shape sp c" by auto
  from ok c1 obtain y2 g2 where c2: "conv y1 (Some c) 3 Linear g1 = Inr (y2, g2)"
    unfolding rcab_def by (auto simp: bnd_def Let_def split: sum.splits)
  from conv_Inr [OF c2 s1] have s2: "shape y2 = image_shape sp c" by auto
  from ok c1 c2 obtain res3 where "channel_attention_block y2 cr g2 = Inr res3"
    unfolding rcab_def by (auto simp: bnd_def Let_def split: sum.splits)
  then show ?thesis using s2 by (rule channel_attention_block_Inr)
qed

lemma appends_ret: "appends (ret x) g (shape x) 0 0 0"
  by (simp add: appends_def ret_def)

lemma appends_bnd:
  assumes "appends m g s n a b"
    and "\<And>y g'. shape y = s \<Longrightarrow> appends (f y) g' s' n' a' b'"
  shows "appends (bnd m f) g s' (n + n') (a + a') (b + b')"
proof -
  from assms(1) obtain y ns where m: "m g = Inr (y, g @ ns)" and y: "shape y = s"
    and ns: "length ns = n" "count_layers is_conv ns = a" "count_layers is_add ns = b"
    by (auto simp: appends_def)
  from assms(2) [OF y, of "g @ ns"] obtain z ms where
    f: "f y (g @ ns) = Inr (z, (g @ ns) @ ms)" and z: "shape z = s'"
    and ms: "length ms = n'" "count_layers is_conv ms = a'" "count_layers is_add ms = b'"
    by (auto simp: appends_def)
  have "bnd m f g = Inr (z, g @ (ns @ ms))" using m f by (simp add: bnd_def)
  with z ns ms show ?thesis unfolding appends_def
    by (intro exI [of _ z] exI [of _ "ns @ ms"]) simp
qed

lemma appends_Inr:
  assumes "appends m g s n a b" and "m g = Inr (y, g')"
  shows "shape y = s \<and> (\<exists>ns. g' = g @ ns \<and> length ns = n
           \<and> count_layers is_conv ns = a \<and> count_layers is_add ns = b)"
  using assms by (auto simp: appends_def)

lemma rcab_loop_eq:
  assumes "shape x = image_shape sp c" and "0 < k \<longrightarrow> attention_ok sp c cr"
  shows "appends (rcab_loop k (Some c) cr rs x) g (image_shape sp c) (k * rcab_size rs) (4 * k) k"
  using assms
proof (induction k arbitrary: x g)
  case 0
  then show ?case using appends_ret [of x g] by simp
next
  case (Suc k)
  from Suc.prems have ok: "attention_ok sp c cr" by simp
  from ok have "length sp \<in> {2, 3}" "cr \<noteq> 0" "0 < c div cr" "0 < c"
    by (simp_all add: attention_ok_def)
  then have step: "appends (rcab (Some c) cr rs x) g (image_shape sp c) (rcab_size rs) 4 1"
    by (rule rcab_eq [OF Suc.prems(1)])
  have rest: "appends (rcab_loop k (Some c) cr rs y) g' (image_shape sp c)
                (k * rcab_size rs) (4 * k) k" if "shape y = image_shape sp c" for y g'
    using Suc.IH [OF that] ok by simp
  from appends_bnd [OF step rest] show ?case by (simp add: add.commute)
qed

lemma rcab_loop_Inr:
  assumes "rcab_loop k (Some c) cr rs x g = Inr res" and "shape x = image_shape sp c" and "0 < k"
  shows "attention_ok sp c cr"
proof -
  from assms(3) obtain j where "k = Suc j" by (cases k) auto
  with assms(1) obtain res1 where "rcab (Some c) cr rs x g = Inr res1"
    by (auto simp: bnd_def split: sum.splits)
  from rcab_Inr [OF this assms(2)] show ?thesis by (simp add: attention_ok_def)
qed

lemma blocks_eq:
  assumes sh: "shape x = image_shape sp c" and ok: "0 < nb \<longrightarrow> attention_ok sp c cr"
  shows "appends (residual_channel_attention_blocks x nb cr rs) g (image_shape sp c)
           (nat nb * rcab_size rs) (4 * nat nb) (nat nb)"
proof -
  have nc: "get_num_channels x g = Inr (Some c, g)"
    using sh by (simp add: get_num_channels_def ret_def)
  have "0 < nat nb \<longrightarrow> attention_ok sp c cr" using ok by simp
  from rcab_loop_eq [OF sh this, of rs g] show ?thesis
    unfolding residual_channel_attention_blocks_def appends_def by (simp add: bnd_def nc)
qed

lemma blocks_Inr:
  assumes "residual_channel_attention_blocks x nb cr rs g = Inr res"
    and sh: "shape x = image_shape sp c" and "0 < nb"
  shows "attention_ok sp c cr"
proof -
  have nc: "get_num_channels x g = Inr (Some c, g)"
    using sh by (simp add: get_num_channels_def ret_def)
  from assms(1) have "rcab_loop (nat nb) (Some c) cr rs x g = Inr res"
    unfolding residual_channel_attention_blocks_def by (simp add: bnd_def nc)
  from rcab_loop_Inr [OF this sh] assms(3) show ?thesis by simp
qed

lemma bnd_ret: "bnd m ret = m"
  by (rule ext) (simp add: bnd_def ret_def split: sum.splits)

lemma bnd_assoc: "bnd (bnd m f) k = bnd m (\<lambda>x. bnd (f x) k)"
  by (rule ext) (simp add: bnd_def split: sum.splits)

lemma group_loop_one:
  "group_loop (Suc k) 1 nc nb cr rs x = residual_channel_attention_blocks x nb cr rs"
proof -
  have "(\<lambda>y. ret y) = (ret :: tensor \<Rightarrow> tensor build)" by simp
  then show ?thesis by (simp add: Let_def bnd_ret)
qed

lemma conv_appends:
  assumes "shape x = image_shape sp c" and "length sp \<in> {1, 2, 3}" and "0 < d"
  shows "appends (conv x (Some d) k a) g (image_shape sp d) 1 1 0"
  unfolding appends_def using conv_eq [OF assms, of k a g] by simp

lemma add_appends:
  assumes "shape x = s" and "shape y = s"
  shows "appends (keras_merge Add x y) g s 1 0 1"
  unfolding appends_def using keras_merge_same [of x y Add g] assms by simp

lemma group_loop_eq:
  assumes "shape x = image_shape sp nc" and "ng \<noteq> 1"
    and "length sp \<in> {1, 2, 3}" and "0 < nc"
    and "0 < k \<and> 0 < nb \<longrightarrow> attention_ok sp nc cr"
  shows "appends (group_loop k ng nc nb cr rs x) g (image_shape sp nc)
           (k * group_size nb rs) (k * (4 * nat nb + 1)) (k * (nat nb + 1))"
  using assms
proof (induction k arbitrary: x g)
  case 0
  then show ?case using appends_ret [of x g] by simp
next
  case (Suc k)
  let ?S = "image_shape sp nc"
  have ok: "0 < nb \<longrightarrow> attention_ok sp nc cr" using Suc.prems by simp
  have blocks: "appends (residual_channel_attention_blocks x nb cr rs) g ?S
                  (nat nb * rcab_size rs) (4 * nat nb) (nat nb)"
    using Suc.prems(1) ok by (rule blocks_eq)
  have rest: "appends (bnd (conv y (Some nc) 3 Linear) (\<lambda>z. bnd (keras_merge Add z x)
                  (group_loop k ng nc nb cr rs))) g' ?S
                (1 + (1 + k * group_size nb rs)) (1 + (0 + k * (4 * nat nb + 1)))
                (0 + (1 + k * (nat nb + 1)))"
    if y: "shape y = ?S" for y :: tensor and g'
  proof (rule appends_bnd)
    show "appends (conv y (Some nc) 3 Linear) g' ?S 1 1 0"
      using y Suc.prems(3,4) by (rule conv_appends)
  next
    fix z :: tensor and g'' :: graph
    assume z: "shape z = ?S"
    show "appends (bnd (keras_merge Add z x) (group_loop k ng nc nb cr rs)) g'' ?S
            (1 + k * group_size nb rs) (0 + k * (4 * nat nb + 1)) (1 + k * (nat nb + 1))"
    proof (rule appends_bnd)
      show "appends (keras_merge Add z x) g'' ?S 1 0 1"
        using z Suc.prems(1) by (rule add_appends)
    next
      fix w :: tensor and g3 :: graph
      assume "shape w = ?S"
      then show "appends (group_loop k ng nc nb cr rs w) g3 ?S
              (k * group_size nb rs) (k * (4 * nat nb + 1)) (k * (nat nb + 1))"
        using Suc.IH [of w g3] Suc.prems(2,3,4) ok by simp
    qed
  qed
  from appends_bnd [OF blocks rest] show ?case
    using Suc.prems(2) by (simp add: Let_def group_size_def algebra_simps)
qed

lemma group_loop_Inr:
  assumes "group_loop k ng nc nb cr rs x g = Inr res" and "shape x = image_shape sp c"
    and "0 < k" and "0 < nb"
  shows "attention_ok sp c cr"
proof -
  from assms(3) obtain j where "k = Suc j" by (cases k) auto
  with assms(1) obtain res1 where "residual_channel_attention_blocks x nb cr rs g = Inr res1"
    by (auto simp: bnd_def Let_def split: sum.splits)
  from blocks_Inr [OF this assms(2) assms(4)] show ?thesis .
qed

lemma groups_appends:
  assumes sh: "shape x = image_shape sp nc" and n: "length sp \<in> {1, 2, 3}" and c: "0 < nc"
    and ok: "0 < ng \<and> 0 < nb \<longrightarrow> attention_ok sp nc cr"
  shows "appends (group_loop (nat ng) ng nc nb cr rs x) g (image_shape sp nc)
           (groups_nodes ng nb rs) (groups_convs ng nb) (groups_adds ng nb)"
proof (cases "ng = 1")
  case True
  have "0 < nb \<longrightarrow> attention_ok sp nc cr" using ok True by simp
  from blocks_eq [OF sh this, of rs g] show ?thesis
    using True group_loop_one [of 0 nc nb cr rs x]
    by (simp add: groups_nodes_def groups_convs_def groups_adds_def)
next
  case False
  have "0 < nat ng \<and> 0 < nb \<longrightarrow> attention_ok sp nc cr" using ok by simp
  from group_loop_eq [OF sh False n c this, of rs g] show ?thesis
    using False by (simp add: groups_nodes_def groups_convs_def groups_adds_def)
qed

lemma call_layer_appends:
  "\<not> is_conv l \<Longrightarrow> \<not> is_add l \<Longrightarrow> appends (call_layer l ins s) g s 1 0 0"
  by (simp add: appends_def call_layer_def)

lemma trunk_appends:
  fixes x1 :: tensor
  assumes sh: "shape x1 = image_shape sp c0" and n: "length sp \<in> {1, 2, 3}" and c: "0 < nc"
    and ok: "0 < ng \<and> 0 < nb \<longrightarrow> attention_ok sp nc cr" and K: "0 < K"
  shows "appends
           (bnd (conv x1 (Some nc) 3 Linear) (\<lambda>x.
            bnd (group_loop (nat ng) ng nc nb cr rs x) (\<lambda>x'.
            bnd (conv x' (Some nc) 3 Linear) (\<lambda>x''.
            bnd (keras_merge Add x'' x) (\<lambda>x3.
            bnd (conv x3 (Some K) 3 Linear) (\<lambda>x4.
            call_layer Destandardise [x4] (shape x4)))))))
           g (image_shape sp K)
           (groups_nodes ng nb rs + 5) (groups_convs ng nb + 3) (groups_adds ng nb + 1)"
proof -
  let ?S = "image_shape sp nc"
  have tail: "appends
           (bnd (group_loop (nat ng) ng nc nb cr rs x) (\<lambda>x'.
            bnd (conv x' (Some nc) 3 Linear) (\<lambda>x''.
            bnd (keras_merge Add x'' x) (\<lambda>x3.
            bnd (conv x3 (Some K) 3 Linear) (\<lambda>x4.
            call_layer Destandardise [x4] (shape x4))))))
           g' (image_shape sp K)
           (groups_nodes ng nb rs + (1 + (1 + (1 + 1)))) (groups_convs ng nb + (1 + (0 + (1 + 0))))
           (groups_adds ng nb + (0 + (1 + (0 + 0))))"
    if x: "shape x = ?S" for x :: tensor and g' :: graph
  proof (rule appends_bnd [OF groups_appends [OF x n c ok]])
    fix x' :: tensor and g1 :: graph
    assume x': "shape x' = ?S"
    show "appends (bnd (conv x' (Some nc) 3 Linear) (\<lambda>x''.
            bnd (keras_merge Add x'' x) (\<lambda>x3.
            bnd (conv x3 (Some K) 3 Linear) (\<lambda>x4.
            call_layer Destandardise [x4] (shape x4))))) g1 (image_shape sp K)
            (1 + (1 + (1 + 1))) (1 + (0 + (1 + 0))) (0 + (1 + (0 + 0)))"
    proof (rule appends_bnd [OF conv_appends [OF x' n c]])
      fix x'' :: tensor and g2 :: graph
      assume x'': "shape x'' = ?S"
      show "appends (bnd (keras_merge Add x'' x) (\<lambda>x3.
              bnd (conv x3 (Some K) 3 Linear) (\<lambda>x4.
              call_layer Destandardise [x4] (shape x4)))) g2 (image_shape sp K)
              (1 + (1 + 1)) (0 + (1 + 0)) (1 + (0 + 0))"
      proof (rule appends_bnd [OF add_appends [OF x'' x]])
        fix x3 :: tensor and g3 :: graph
        assume x3: "shape x3 = ?S"
        show "appends (bnd (conv x3 (Some K) 3 Linear) (\<lambda>x4.
              call_layer Destandardise [x4] (shape x4))) g3 (image_shape sp K)
              (1 + 1) (1 + 0) (0 + 0)"
        proof (rule appends_bnd [OF conv_appends [OF x3 n K]])
          fix x4 :: tensor and g4 :: graph
          assume "shape x4 = image_shape sp K"
          then show "appends (call_layer Destandardise [x4] (shape x4)) g4 (image_shape sp K) 1 0 0"
            using call_layer_appends [of Destandardise "[x4]" "shape x4" g4] by simp
        qed
      qed
    qed
  qed
  have first: "appends (conv x1 (Some nc) 3 Linear) g ?S 1 1 0"
    using sh n c by (rule conv_appends)
  have "appends
           (bnd (conv x1 (Some nc) 3 Linear) (\<lambda>x.
            bnd (group_loop (nat ng) ng nc nb cr rs x) (\<lambda>x'.
            bnd (conv x' (Some nc) 3 Linear) (\<lambda>x''.
            bnd (keras_merge Add x'' x) (\<lambda>x3.
            bnd (conv x3 (Some K) 3 Linear) (\<lambda>x4.
            call_layer Destandardise [x4] (shape x4)))))))
           g (image_shape sp K)
           (1 + (groups_nodes ng nb rs + (1 + (1 + (1 + 1)))))
           (1 + (groups_convs ng nb + (1 + (0 + (1 + 0)))))
           (0 + (groups_adds ng nb + (0 + (1 + (0 + 0)))))"
    by (rule appends_bnd [OF first tail])
  then show ?thesis by (simp add: eval_nat_numeral)
qed

lemma input_shape_image:
  "input_shape \<noteq> [] \<Longrightarrow>
   None # map Some input_shape = image_shape (butlast input_shape) (last input_shape)"
  by (cases input_shape rule: rev_cases) (simp_all add: image_shape_def)

lemma conv_rank: "conv x f k a g = Inr res \<Longrightarrow> get_spatial_ndim x \<in> {1, 2, 3}"
  by (auto simp: conv_def Let_def split: if_splits)

lemma appends_pair:
  assumes "appends m g s n a b"
  shows "\<exists>y ns. bnd m (\<lambda>out. ret (i, out)) g = Inr ((i, y), g @ ns) \<and> shape y = s
           \<and> length ns = n \<and> count_layers is_conv ns = a \<and> count_layers is_add ns = b"
  using assms by (auto simp: appends_def bnd_def ret_def)

lemma ret_bnd: "bnd (ret a) f g = f a g"
  by (simp add: bnd_def ret_def)

lemma call_layer_bnd:
  "bnd (call_layer l ins s) f g =
     f \<lparr>producer = length g, shape = s\<rparr> (g @ [(l, map producer ins)])"
  by (simp add: bnd_def call_layer_def)

lemma build_rcan_graph_unfold:
  assumes ne: "noc < 0 \<longrightarrow> input_shape \<noteq> []" and dims: "\<forall>d \<in> set input_shape. 0 \<le> d"
    and K: "K = (if noc < 0 then last input_shape else noc)"
  shows "build_rcan_graph input_shape nc nb ng cr rs noc [] =
           bnd (bnd (conv \<lparr>producer = 1, shape = None # map Some input_shape\<rparr>
                       (Some nc) 3 Linear) (\<lambda>x.
                bnd (group_loop (nat ng) ng nc nb cr rs x) (\<lambda>x'.
                bnd (conv x' (Some nc) 3 Linear) (\<lambda>x''.
                bnd (keras_merge Add x'' x) (\<lambda>x3.
                bnd (conv x3 (Some K) 3 Linear) (\<lambda>x4.
                call_layer Destandardise [x4] (shape x4)))))))
             (\<lambda>out. ret (\<lparr>producer = 0, shape = None # map Some input_shape\<rparr>, out))
             [(InputLayer, []), (Standardise, [0])]"
proof -
  have pre: "(if noc < 0 then (if input_shape = [] then raise IndexError
                               else ret (last input_shape))
              else ret noc) = ret K"
    using ne K by simp
  have inp: "keras_Input input_shape = call_layer InputLayer [] (None # map Some input_shape)"
    using dims by (auto simp: keras_Input_def)
  show ?thesis
    unfolding build_rcan_graph_def pre inp
    by (simp add: ret_bnd call_layer_bnd bnd_assoc Let_def)
qed

lemma build_rcan_graph_buildable:
  assumes ok: "rcan_buildable input_shape nc nb ng cr noc"
  shows "\<exists>y ns. build_rcan_graph input_shape nc nb ng cr rs noc [] =
             Inr ((\<lparr>producer = 0, shape = None # map Some input_shape\<rparr>, y), ns)
           \<and> shape y = image_shape (butlast input_shape)
                          (if noc < 0 then last input_shape else noc)
           \<and> length ns = groups_nodes ng nb rs + 7
           \<and> count_layers is_conv ns = groups_convs ng nb + 3
           \<and> count_layers is_add ns = groups_adds ng nb + 1"
proof -
  let ?sp = "butlast input_shape"
  define K where "K = (if noc < 0 then last input_shape else noc)"
  let ?i = "\<lparr>producer = 0, shape = None # map Some input_shape\<rparr>"
  let ?x1 = "\<lparr>producer = 1, shape = None # map Some input_shape\<rparr>"
  let ?g1 = "[(InputLayer, []), (Standardise, [0])]"
  from ok have ne: "input_shape \<noteq> []" and n: "length ?sp \<in> {1, 2, 3}" and c: "0 < nc"
    and dims: "\<forall>d \<in> set input_shape. 0 \<le> d"
    and att: "0 < ng \<and> 0 < nb \<longrightarrow> attention_ok ?sp nc cr" and K: "0 < K"
    by (auto simp: rcan_buildable_def K_def)
  have sh: "shape ?x1 = image_shape ?sp (last input_shape)"
    using input_shape_image [OF ne] by simp
  have "appends
           (bnd (conv ?x1 (Some nc) 3 Linear) (\<lambda>x.
            bnd (group_loop (nat ng) ng nc nb cr rs x) (\<lambda>x'.
            bnd (conv x' (Some nc) 3 Linear) (\<lambda>x''.
            bnd (keras_merge Add x'' x) (\<lambda>x3.
            bnd (conv x3 (Some K) 3 Linear) (\<lambda>x4.
            call_layer Destandardise [x4] (shape x4)))))))
           ?g1 (image_shape ?sp K)
           (groups_nodes ng nb rs + 5) (groups_convs ng nb + 3) (groups_adds ng nb + 1)"
    using sh n c att K by (rule trunk_appends)
  from appends_pair [OF this, where i = ?i]
  obtain y ns where
    run: "bnd (bnd (conv ?x1 (Some nc) 3 Linear) (\<lambda>x.
            bnd (group_loop (nat ng) ng nc nb cr rs x) (\<lambda>x'.
            bnd (conv x' (Some nc) 3 Linear) (\<lambda>x''.
            bnd (keras_merge Add x'' x) (\<lambda>x3.
            bnd (conv x3 (Some K) 3 Linear) (\<lambda>x4.
            call_layer Destandardise [x4] (shape x4)))))))
          (\<lambda>out. ret (?i, out)) ?g1 = Inr ((?i, y), ?g1 @ ns)"
    and y: "shape y = image_shape ?sp K"
    and ns: "length ns = groups_nodes ng nb rs + 5"
      "count_layers is_conv ns = groups_convs ng nb + 3"
      "count_layers is_add ns = groups_adds ng nb + 1"
    by blast
  have "build_rcan_graph input_shape nc nb ng cr rs noc [] = Inr ((?i, y), ?g1 @ ns)"
    using build_rcan_graph_unfold [of noc input_shape K nc nb ng cr rs] ne dims run
    by (simp add: K_def)
  with y ns show ?thesis by (simp add: K_def)
qed

lemma build_rcan_graph_Inr:
  assumes ok: "build_rcan_graph input_shape nc nb ng cr rs noc [] = Inr res"
  shows "rcan_buildable input_shape nc nb ng cr noc"
proof -
  define K where "K = (if noc < 0 then last input_shape else noc)"
  let ?sp = "butlast input_shape"
  let ?x1 = "\<lparr>producer = 1, shape = None # map Some input_shape\<rparr>"
  let ?g1 = "[(InputLayer, []), (Standardise, [0])]"
  have ne0: "noc < 0 \<longrightarrow> input_shape \<noteq> []"
    using ok unfolding build_rcan_graph_def
    by (auto simp: bnd_def raise_def split: sum.splits if_splits)
  have dims: "\<forall>d \<in> set input_shape. 0 \<le> d"
  proof (rule ccontr)
    assume "\<not> ?thesis"
    then have "keras_Input input_shape = raise KerasValueError"
      by (auto simp: keras_Input_def)
    with ok ne0 show False
      unfolding build_rcan_graph_def
      by (auto simp: bnd_def raise_def ret_def split: sum.splits if_splits)
  qed
  from ok build_rcan_graph_unfold [OF ne0 dims K_def, of nc nb ng cr rs]
  obtain x g2 x' g3 y g4 r4 where
    c1: "conv ?x1 (Some nc) 3 Linear ?g1 = Inr (x, g2)"
    and gl: "group_loop (nat ng) ng nc nb cr rs x g2 = Inr (x', g3)"
    and c3: "conv y (Some K) 3 Linear g4 = Inr r4"
    by (auto simp: bnd_Inr)
  from conv_rank [OF c1] have len: "length input_shape \<in> {2, 3, 4}"
    by (auto simp: get_spatial_ndim_def)
  then have ne: "input_shape \<noteq> []" by auto
  have sh: "shape ?x1 = image_shape ?sp (last input_shape)"
    using input_shape_image [OF ne] by simp
  from conv_pos [OF c1] have c: "0 < nc" .
  from conv_Inr [OF c1 sh] have x: "shape x = image_shape ?sp nc" by auto
  have att: "0 < ng \<and> 0 < nb \<longrightarrow> attention_ok ?sp nc cr"
    using group_loop_Inr [OF gl x] by simp
  from conv_pos [OF c3] have "0 < K" .
  with len dims c att show ?thesis by (simp add: rcan_buildable_def K_def)
qed

lemma build_rcan_Inr_iff:
  "(\<exists>m. build_rcan input_shape nc nb ng cr rs noc = Inr m) \<longleftrightarrow>
     rcan_buildable input_shape nc nb ng cr noc"
proof
  assume "\<exists>m. build_rcan input_shape nc nb ng cr rs noc = Inr m"
  then obtain res where "build_rcan_graph input_shape nc nb ng cr rs noc [] = Inr res"
    by (auto simp: build_rcan_def split: sum.splits)
  then show "rcan_buildable input_shape nc nb ng cr noc" by (rule build_rcan_graph_Inr)
next
  assume "rcan_buildable input_shape nc nb ng cr noc"
  from build_rcan_graph_buildable [OF this, of rs] show
    "\<exists>m. build_rcan input_shape nc nb ng cr rs noc = Inr m"
    by (auto simp: build_rcan_def)
qed

lemma build_rcan_Inr:
  assumes "build_rcan input_shape nc nb ng cr rs noc = Inr m"
  shows "shape (model_inputs m) = None # map Some input_shape"
    and "shape (model_outputs m) =
           image_shape (butlast input_shape) (if noc < 0 then last input_shape else noc)"
    and "length (model_graph m) = groups_nodes ng nb rs + 7"
    and "count_layers is_conv (model_graph m) = groups_convs ng nb + 3"
    and "count_layers is_add (model_graph m) = groups_adds ng nb + 1"
proof -
  have "rcan_buildable input_shape nc nb ng cr noc"
    using assms build_rcan_Inr_iff by blast
  from build_rcan_graph_buildable [OF this, of rs] assms
  show "shape (model_inputs m) = None # map Some input_shape"
    and "shape (model_outputs m) =
           image_shape (butlast input_shape) (if noc < 0 then last input_shape else noc)"
    and "length (model_graph m) = groups_nodes ng nb rs + 7"
    and "count_layers is_conv (model_graph m) = groups_convs ng nb + 3"
    and "count_layers is_add (model_graph m) = groups_adds ng nb + 1"
    by (auto simp: build_rcan_def)
qed

lemma valid_buildable:
  assumes "valid_rcan_arguments input_shape nc cr noc"
  shows "rcan_buildable input_shape nc nb ng cr noc"
proof -
  from assms have len: "length input_shape \<in> {3, 4}" and pos: "\<forall>d \<in> set input_shape. 0 < d"
    and rest: "0 < nc" "cr \<noteq> 0" "0 < nc div cr" "noc \<noteq> 0"
    by (simp_all add: valid_rcan_arguments_def)
  from len have ne: "input_shape \<noteq> []" by auto
  then have "last input_shape \<in> set input_shape" by simp
  with pos have l: "0 < last input_shape" by blast
  from pos have nn: "\<forall>d \<in> set input_shape. 0 \<le> d" by force
  from len have "length (butlast input_shape) \<in> {2, 3}" by auto
  with len nn rest l show ?thesis
    by (auto simp: rcan_buildable_def attention_ok_def)
qed

lemma groups_one_lt_two:
  "groups_nodes 1 nb rs < groups_nodes 2 nb rs"
  "groups_convs 1 nb < groups_convs 2 nb"
  "groups_adds 1 nb < groups_adds 2 nb"
  by (simp_all add: groups_nodes_def groups_convs_def groups_adds_def group_size_def)

lemma buildable_two_one:
  "rcan_buildable input_shape nc nb 2 cr noc \<Longrightarrow> rcan_buildable input_shape nc nb 1 cr noc"
  by (simp add: rcan_buildable_def)

lemma rcab_one_dim:
  assumes sh: "shape x = image_shape sp c" and n: "length sp = 1" and c: "0 < c"
  shows "rcab (Some c) cr rs x g = Inl (PoolingNotSupported 1)"
proof -
  have n1: "length sp \<in> {1, 2, 3}" using n by simp
  have p: "global_average_pooling \<lparr>producer = p, shape = image_shape sp c\<rparr> g' =
             Inl (PoolingNotSupported 1)" for p g'
    using n by (simp add: global_average_pooling_def get_spatial_ndim_def raise_def)
  show ?thesis
    unfolding rcab_def
    using n1 c
    by (simp add: bnd_def Let_def conv_eq [OF sh n1 c] conv_lit channel_attention_block_def
          get_num_channels_def ret_def p)
qed

lemma build_rcan_one_dim:
  assumes len: "length input_shape = 2" and dims: "\<forall>d \<in> set input_shape. 0 \<le> d"
    and c: "0 < nc" and nb: "0 < nb" and ng: "0 < ng"
  shows "build_rcan input_shape nc nb ng cr rs noc = Inl (PoolingNotSupported 1)"
proof -
  let ?sp = "butlast input_shape"
  from len have ne: "input_shape \<noteq> []" by auto
  have n: "length ?sp = 1" using len by simp
  then have n1: "length ?sp \<in> {1, 2, 3}" by simp
  have ish: "None # map Some input_shape = image_shape ?sp (last input_shape)"
    using ne by (rule input_shape_image)
  obtain k where k: "nat ng = Suc k" using ng by (cases "nat ng") auto
  obtain j where j: "nat nb = Suc j" using nb by (cases "nat nb") auto
  have blocks: "residual_channel_attention_blocks \<lparr>producer = p, shape = image_shape ?sp nc\<rparr>
                  nb cr rs g = Inl (PoolingNotSupported 1)" for p g
    unfolding residual_channel_attention_blocks_def
    by (simp add: bnd_def get_num_channels_def ret_def j rcab_one_dim [OF _ n c])
  have loop: "group_loop (nat ng) ng nc nb cr rs \<lparr>producer = p, shape = image_shape ?sp nc\<rparr> g
                = Inl (PoolingNotSupported 1)" for p g
    by (simp add: k Let_def bnd_def blocks)
  have "build_rcan_graph input_shape nc nb ng cr rs noc [] = Inl (PoolingNotSupported 1)"
    using build_rcan_graph_unfold [of noc input_shape _ nc nb ng cr rs, OF _ dims refl] ne
    by (simp add: ish bnd_def conv_lit [OF n1 c] loop)
  then show ?thesis by (simp add: build_rcan_def)
qed

subsection \<open>The lone residual group\<close>

text \<open>
  C1: with \<open>num_residual_groups = 1\<close> the group loop of \<^verbatim>\<open>build_rcan\<close> is the stack of
  residual channel attention blocks and nothing else (the \<^verbatim>\<open>break\<close> skips the group's
  convolution and its skip addition); with every other number of groups each pass of the
  loop is the stack, then a convolution to \<open>num_channels\<close>, then the addition of the
  group's short skip. So whenever the two-group model can be built, the one-group model
  with the same other arguments can be built too and has strictly fewer nodes, strictly
  fewer convolutions and strictly fewer additions.
\<close>

theorem lone_group_skips_post_conv_and_add:
  "group_loop (nat 1) 1 num_channels num_residual_blocks channel_reduction residual_scaling x
     = residual_channel_attention_blocks x num_residual_blocks channel_reduction
         residual_scaling
   \<and> (num_residual_groups \<noteq> 1 \<longrightarrow>
        group_loop (Suc k) num_residual_groups num_channels num_residual_blocks
          channel_reduction residual_scaling x
        = bnd (residual_channel_attention_blocks x num_residual_blocks channel_reduction
                 residual_scaling) (\<lambda>y.
          bnd (conv y (Some num_channels) 3 Linear) (\<lambda>z.
          bnd (keras_merge Add z x)
              (group_loop k num_residual_groups num_channels num_residual_blocks
                 channel_reduction residual_scaling))))
   \<and> (\<forall>m2. build_rcan input_shape num_channels num_residual_blocks 2 channel_reduction
               residual_scaling num_output_channels = Inr m2 \<longrightarrow>
          (\<exists>m1. build_rcan input_shape num_channels num_residual_blocks 1 channel_reduction
                   residual_scaling num_output_channels = Inr m1
             \<and> length (model_graph m1) < length (model_graph m2)
             \<and> count_layers is_conv (model_graph m1) < count_layers is_conv (model_graph m2)
             \<and> count_layers is_add (model_graph m1) < count_layers is_add (model_graph m2)))"
proof (intro conjI impI allI)
  show "group_loop (nat 1) 1 num_channels num_residual_blocks channel_reduction
          residual_scaling x
        = residual_channel_attention_blocks x num_residual_blocks channel_reduction
            residual_scaling"
    using group_loop_one [of 0] by simp
next
  assume "num_residual_groups \<noteq> 1"
  then show "group_loop (Suc k) num_residual_groups num_channels num_residual_blocks
          channel_reduction residual_scaling x
        = bnd (residual_channel_attention_blocks x num_residual_blocks channel_reduction
                 residual_scaling) (\<lambda>y.
          bnd (conv y (Some num_channels) 3 Linear) (\<lambda>z.
          bnd (keras_merge Add z x)
              (group_loop k num_residual_groups num_channels num_residual_blocks
                 channel_reduction residual_scaling)))"
    by (simp add: Let_def)
next
  fix m2
  assume m2: "build_rcan input_shape num_channels num_residual_blocks 2 channel_reduction
               residual_scaling num_output_channels = Inr m2"
  then have "rcan_buildable input_shape num_channels num_residual_blocks 2 channel_reduction
               num_output_channels"
    using build_rcan_Inr_iff by blast
  then have "rcan_buildable input_shape num_channels num_residual_blocks 1 channel_reduction
               num_output_channels"
    by (rule buildable_two_one)
  then obtain m1 where m1: "build_rcan input_shape num_channels num_residual_blocks 1
      channel_reduction residual_scaling num_output_channels = Inr m1"
    using build_rcan_Inr_iff by blast
  show "\<exists>m1. build_rcan input_shape num_channels num_residual_blocks 1 channel_reduction
                   residual_scaling num_output_channels = Inr m1
             \<and> length (model_graph m1) < length (model_graph m2)
             \<and> count_layers is_conv (model_graph m1) < count_layers is_conv (model_graph m2)
             \<and> count_layers is_add (model_graph m1) < count_layers is_add (model_graph m2)"
    using m1 build_rcan_Inr(3,4,5) [OF m1] build_rcan_Inr(3,4,5) [OF m2]
      groups_one_lt_two(1) [of num_residual_blocks residual_scaling]
      groups_one_lt_two(2,3) [of num_residual_blocks]
    by simp
qed

theorem lone_group_skips_post_conv_and_add_witness:
  "\<exists>m1 m2. build_rcan [16, 256, 256, 1] 32 3 2 8 1 (- 1) = Inr m2
     \<and> build_rcan [16, 256, 256, 1] 32 3 1 8 1 (- 1) = Inr m1
     \<and> length (model_graph m1) < length (model_graph m2)
     \<and> count_layers is_conv (model_graph m1) < count_layers is_conv (model_graph m2)
     \<and> count_layers is_add (model_graph m1) < count_layers is_add (model_graph m2)"
proof -
  have "rcan_buildable [16, 256, 256, 1] 32 3 2 8 (- 1)"
    by (simp add: rcan_buildable_def attention_ok_def)
  then obtain m2 where "build_rcan [16, 256, 256, 1] 32 3 2 8 1 (- 1) = Inr m2"
    using build_rcan_Inr_iff by blast
  with lone_group_skips_post_conv_and_add
         [where input_shape = "[16, 256, 256, 1]" and num_channels = 32
            and num_residual_blocks = 3 and channel_reduction = 8
            and residual_scaling = 1 and num_output_channels = "- 1"]
  show ?thesis by blast
qed

subsection \<open>Output shape of the assembled model\<close>

text \<open>
  C2: whenever \<^verbatim>\<open>build_rcan\<close> returns a model, the model's output has the batch
  axis, then the spatial axes of the input unchanged, then \<open>K\<close> channels, where \<open>K\<close> is
  \<open>num_output_channels\<close>, or the input's channel count (the last entry of
  \<open>input_shape\<close>) when \<open>num_output_channels\<close> is negative; and for every valid input
  shape and hyperparameter set the function does return a model.
\<close>

theorem build_rcan_output_shape:
  "(valid_rcan_arguments input_shape num_channels channel_reduction num_output_channels \<longrightarrow>
      (\<exists>m. build_rcan input_shape num_channels num_residual_blocks num_residual_groups
              channel_reduction residual_scaling num_output_channels = Inr m))
   \<and> (\<forall>m. build_rcan input_shape num_channels num_residual_blocks num_residual_groups
              channel_reduction residual_scaling num_output_channels = Inr m \<longrightarrow>
          shape (model_inputs m) = None # map Some input_shape
          \<and> shape (model_outputs m) =
              None # map Some (butlast input_shape)
                @ [Some (if num_output_channels < 0 then last input_shape
                         else num_output_channels)])"
  using valid_buildable build_rcan_Inr_iff build_rcan_Inr(1,2)
  by (metis image_shape_def)

theorem build_rcan_output_shape_witness:
  "valid_rcan_arguments [16, 256, 256, 1] 32 8 (- 1)
   \<and> (\<exists>m. build_rcan [16, 256, 256, 1] 32 3 5 8 1 (- 1) = Inr m
          \<and> shape (model_outputs m) = [None, Some 16, Some 256, Some 256, Some 1])"
proof -
  have v: "valid_rcan_arguments [16, 256, 256, 1] 32 8 (- 1)"
    by (simp add: valid_rcan_arguments_def)
  with build_rcan_output_shape [of "[16, 256, 256, 1]" 32 8 "- 1" 3 5 1]
  show ?thesis by auto
qed

subsection \<open>Unsupported spatial ranks\<close>

text \<open>
  C4: the convolution dispatcher raises its unsupported-rank error exactly for the spatial
  ranks outside 1, 2, 3, and the pooling step of the channel attention block raises its
  unsupported-rank error exactly for the spatial ranks outside 2, 3; the error names the
  rank. So a tensor of spatial rank 1 passes the convolution dispatch and is rejected by
  the pooling step, and \<^verbatim>\<open>build_rcan\<close> on an input with one spatial axis (with at
  least one group and one block) returns that error instead of a model: it is raised
  while the graph is built.
\<close>

theorem unsupported_rank_errors:
  "((\<exists>n. conv x num_filters kernel_size act g = Inl (ConvNotSupported n)) \<longleftrightarrow>
      get_spatial_ndim x \<notin> {1, 2, 3})
   \<and> (get_spatial_ndim x \<notin> {1, 2, 3} \<longrightarrow>
        conv x num_filters kernel_size act g = Inl (ConvNotSupported (get_spatial_ndim x)))
   \<and> ((\<exists>n. global_average_pooling x g = Inl (PoolingNotSupported n)) \<longleftrightarrow>
        get_spatial_ndim x \<notin> {2, 3})
   \<and> (get_spatial_ndim x \<notin> {2, 3} \<longrightarrow>
        global_average_pooling x g = Inl (PoolingNotSupported (get_spatial_ndim x)))
   \<and> (get_spatial_ndim x \<notin> {2, 3} \<and> shape x \<noteq> [] \<longrightarrow>
        channel_attention_block x reduction g = Inl (PoolingNotSupported (get_spatial_ndim x)))
   \<and> (length input_shape = 2 \<and> (\<forall>d \<in> set input_shape. 0 \<le> d) \<and> 0 < num_channels
        \<and> 0 < num_residual_blocks \<and> 0 < num_residual_groups \<longrightarrow>
        build_rcan input_shape num_channels num_residual_blocks num_residual_groups
          channel_reduction residual_scaling num_output_channels
        = Inl (PoolingNotSupported 1))"
proof (intro conjI impI)
  show "(\<exists>n. conv x num_filters kernel_size act g = Inl (ConvNotSupported n)) \<longleftrightarrow>
      get_spatial_ndim x \<notin> {1, 2, 3}"
    by (auto simp: conv_def keras_Conv_def Let_def raise_def call_layer_def
          split: option.splits)
next
  assume "get_spatial_ndim x \<notin> {1, 2, 3}"
  then show "conv x num_filters kernel_size act g = Inl (ConvNotSupported (get_spatial_ndim x))"
    by (simp add: conv_def Let_def raise_def)
next
  show "(\<exists>n. global_average_pooling x g = Inl (PoolingNotSupported n)) \<longleftrightarrow>
        get_spatial_ndim x \<notin> {2, 3}"
    by (auto simp: global_average_pooling_def keras_GlobalAveragePooling_def Let_def raise_def
          call_layer_def)
next
  assume "get_spatial_ndim x \<notin> {2, 3}"
  then show "global_average_pooling x g = Inl (PoolingNotSupported (get_spatial_ndim x))"
    by (simp add: global_average_pooling_def Let_def raise_def)
next
  assume r: "get_spatial_ndim x \<notin> {2, 3} \<and> shape x \<noteq> []"
  then have "global_average_pooling x g = Inl (PoolingNotSupported (get_spatial_ndim x))"
    by (simp add: global_average_pooling_def Let_def raise_def)
  with r show "channel_attention_block x reduction g
               = Inl (PoolingNotSupported (get_spatial_ndim x))"
    by (simp add: channel_attention_block_def bnd_def get_num_channels_def ret_def)
next
  assume "length input_shape = 2 \<and> (\<forall>d \<in> set input_shape. 0 \<le> d) \<and> 0 < num_channels
        \<and> 0 < num_residual_blocks \<and> 0 < num_residual_groups"
  then show "build_rcan input_shape num_channels num_residual_blocks num_residual_groups
          channel_reduction residual_scaling num_output_channels
        = Inl (PoolingNotSupported 1)"
    by (intro build_rcan_one_dim) simp_all
qed

theorem unsupported_rank_errors_witness:
  "get_spatial_ndim \<lparr>producer = 0, shape = [None, Some 64, Some 1]\<rparr> = 1
   \<and> (\<forall>n. conv \<lparr>producer = 0, shape = [None, Some 64, Some 1]\<rparr> (Some 32) 3 Linear []
            \<noteq> Inl (ConvNotSupported n))
   \<and> global_average_pooling \<lparr>producer = 0, shape = [None, Some 64, Some 1]\<rparr> []
       = Inl (PoolingNotSupported 1)
   \<and> conv \<lparr>producer = 0, shape = [None, Some 1]\<rparr> (Some 32) 3 Linear []
       = Inl (ConvNotSupported 0)
   \<and> build_rcan [64, 1] 32 3 5 8 1 (- 1) = Inl (PoolingNotSupported 1)"
proof -
  have a: "get_spatial_ndim \<lparr>producer = 0, shape = [None, Some 64, Some 1]\<rparr> = 1"
    and b: "get_spatial_ndim \<lparr>producer = 0, shape = [None, Some 1]\<rparr> = 0"
    by (simp_all add: get_spatial_ndim_def)
  show ?thesis
    using a b
      unsupported_rank_errors [where x = "\<lparr>producer = 0, shape = [None, Some 64, Some 1]\<rparr>"
        and num_filters = "Some 32" and kernel_size = 3 and act = Linear and g = "[]"
        and input_shape = "[64, 1]" and num_channels = 32 and num_residual_blocks = 3
        and num_residual_groups = 5 and channel_reduction = 8 and residual_scaling = 1
        and num_output_channels = "- 1"]
      unsupported_rank_errors [where x = "\<lparr>producer = 0, shape = [None, Some 1]\<rparr>"
        and num_filters = "Some 32" and kernel_size = 3 and act = Linear and g = "[]"]
    by simp
qed

subsection \<open>The attention bottleneck\<close>




section \<open>Properties of the normalisation layers\<close>

lemma binade_eq:
  "k \<le> n \<Longrightarrow> 0 < p \<Longrightarrow> 2 ^ k * p \<le> a \<or> k = 0 \<Longrightarrow> a < 2 * (2 ^ k * p) \<Longrightarrow>
   binade n p a = 2 ^ k * p"
proof (induction k arbitrary: n p)
  case 0
  then show ?case by (cases n) simp_all
next
  case (Suc k)
  then obtain m where n: "n = Suc m" by (cases n) auto
  from Suc.prems have "2 * p \<le> a"
  proof -
    have "(1::rat) \<le> 2 ^ k" by simp
    then have "2 * p \<le> 2 ^ Suc k * p" using Suc.prems(2) by (simp add: mult_le_cancel_right)
    with Suc.prems(3) show ?thesis by simp
  qed
  then have "\<not> a < 2 * p" by simp
  moreover have "binade m (2 * p) a = 2 ^ k * (2 * p)"
  proof (rule Suc.IH)
    show "k \<le> m" using Suc.prems(1) n by simp
    show "0 < 2 * p" using Suc.prems(2) by simp
    show "2 ^ k * (2 * p) \<le> a \<or> k = 0" using Suc.prems(3) by (simp add: mult.assoc mult.left_commute)
    show "a < 2 * (2 ^ k * (2 * p))" using Suc.prems(4) by (simp add: mult.assoc mult.left_commute)
  qed
  ultimately show ?case by (simp add: n mult.assoc mult.left_commute)
qed

lemma float32_spacing_eq:
  assumes "k \<le> 253" and "2 ^ k / 2 ^ 126 \<le> \<bar>x\<bar> \<or> k = 0" and "\<bar>x\<bar> < 2 * 2 ^ k / 2 ^ 126"
  shows "float32_spacing x = 2 ^ k / 2 ^ 149"
proof -
  have "binade 253 (1 / 2 ^ 126) \<bar>x\<bar> = 2 ^ k * (1 / 2 ^ 126)"
    using assms by (intro binade_eq) simp_all
  then show ?thesis by (simp add: float32_spacing_def)
qed

lemma round_half_even_eq:
  "of_int z \<le> q \<Longrightarrow> q < of_int z + 1 / 2 \<Longrightarrow> round_half_even q = z"
proof -
  assume a: "of_int z \<le> q" "q < of_int z + 1 / 2"
  then have "\<lfloor>q\<rfloor> = z" by (intro floor_unique) simp_all
  with a show ?thesis by (simp add: round_half_even_def Let_def)
qed

lemma float32_round_eq:
  assumes "k \<le> 253" and "2 ^ k / 2 ^ 126 \<le> \<bar>x\<bar> \<or> k = 0" and "\<bar>x\<bar> < 2 * 2 ^ k / 2 ^ 126"
    and "of_int z \<le> x * 2 ^ 149 / 2 ^ k" and "x * 2 ^ 149 / 2 ^ k < of_int z + 1 / 2"
  shows "float32_round x = of_int z * 2 ^ k / 2 ^ 149"
proof -
  have sp: "float32_spacing x = 2 ^ k / 2 ^ 149"
    using assms(1,2,3) by (rule float32_spacing_eq)
  have q: "x / (2 ^ k / 2 ^ 149) = x * 2 ^ 149 / 2 ^ k" by simp
  have rz: "round_half_even (x * 2 ^ 149 / 2 ^ k) = z"
    using assms(4,5) by (rule round_half_even_eq)
  have "float32_round x = of_int (round_half_even (x / (2 ^ k / 2 ^ 149))) * (2 ^ k / 2 ^ 149)"
    unfolding float32_round_def sp ..
  also have "\<dots> = of_int z * (2 ^ k / 2 ^ 149)" by (simp only: q rz)
  finally show ?thesis by simp
qed

lemma r1: "float32_round (1 / 2 ^ 30) = 1 / 2 ^ 30"
  using float32_round_eq [of 96 "1 / 2 ^ 30" "2 ^ 23"] by simp

lemma r2: "float32_round (1 / 2 ^ 29) = 1 / 2 ^ 29"
  using float32_round_eq [of 97 "1 / 2 ^ 29" "2 ^ 23"] by simp

lemma r3: "float32_round (1 / 2 ^ 29 - 1) = - 1"
  using float32_round_eq [of 125 "1 / 2 ^ 29 - 1" "- (2 ^ 24)"] by simp

lemma r4: "float32_round (- (1 / 2)) = - (1 / 2)"
  using float32_round_eq [of 125 "- (1 / 2)" "- (2 ^ 23)"] by simp

lemma r5: "float32_round 0 = 0"
  using float32_round_eq [of 0 0 0] by simp

lemma r6: "float32_round (1 / 2) = 1 / 2"
  using float32_round_eq [of 125 "1 / 2" "2 ^ 23"] by simp

lemma r7: "float32_round (1 / 4) = 1 / 4"
  using float32_round_eq [of 124 "1 / 4" "2 ^ 23"] by simp

lemma r8: "float32_round (- (1 / 4)) = - (1 / 4)"
  using float32_round_eq [of 124 "- (1 / 4)" "- (2 ^ 23)"] by simp

text \<open>
  C7, as stated: the inverse normalisation after the forward normalisation returns every
  input tensor exactly. On single-precision tensors the entry \<open>1 / 2 ^ 30\<close>, itself a
  float, comes back as \<open>0\<close>: \<open>2x - 1\<close> rounds to \<open>-1\<close>.
\<close>

theorem float32_round_trip_counterexample:
  "float32_round (1 / 2 ^ 30) = 1 / 2 ^ 30
   \<and> DestandardiseLayer_call float32_round (StandardiseLayer_call float32_round [1 / 2 ^ 30])
       = [0]"
proof -
  have a: "float32_round (2 * (1 / 2 ^ 30)) = 1 / 2 ^ 29" using r2 by simp
  have b: "float32_round (1 / 2 ^ 29 + - 1) = - 1" using r3 by simp
  have c: "float32_round (1 / 2 * - 1) = - (1 / 2)" using r4 by simp
  have d: "float32_round (- (1 / 2) + 1 / 2) = 0" using r5 by simp
  show ?thesis
    unfolding StandardiseLayer_call_def DestandardiseLayer_call_def list.map a b c d
    using r1 by simp
qed

text \<open>
  C7, amended: the round trip returns a tensor exactly when, for each of its entries
  \<open>x\<close>, the intermediate results \<open>2x\<close>, \<open>2x - 1\<close> and \<open>x - 1/2\<close> (and \<open>x\<close> itself) are
  representable in the format of the tensor, so that no operation rounds; in exact
  arithmetic, where nothing rounds, the two layers are affine inverses of one another
  on every input. Both layers have an empty configuration: no state, no parameters.
\<close>

theorem round_trip_when_exact:
  "((\<forall>x \<in> set inputs. rnd (2 * x) = 2 * x \<and> rnd (2 * x - 1) = 2 * x - 1
        \<and> rnd (x - 1 / 2) = x - 1 / 2 \<and> rnd x = x) \<longrightarrow>
      DestandardiseLayer_call rnd (StandardiseLayer_call rnd inputs) = inputs)
   \<and> DestandardiseLayer_call (\<lambda>v. v) (StandardiseLayer_call (\<lambda>v. v) inputs) = inputs
   \<and> StandardiseLayer_get_config = [] \<and> DestandardiseLayer_get_config = []"
proof -
  have gen: "DestandardiseLayer_call rnd (StandardiseLayer_call rnd inputs) = inputs"
    if a: "\<forall>x \<in> set inputs. rnd (2 * x) = 2 * x \<and> rnd (2 * x - 1) = 2 * x - 1
        \<and> rnd (x - 1 / 2) = x - 1 / 2 \<and> rnd x = x" for rnd
  proof -
    have "rnd (rnd ((1 / 2) * rnd (rnd (2 * x) + (- 1))) + 1 / 2) = x" if "x \<in> set inputs" for x
    proof -
      from a that have 1: "rnd (2 * x) = 2 * x" and 2: "rnd (2 * x - 1) = 2 * x - 1"
        and 3: "rnd (x - 1 / 2) = x - 1 / 2" and 4: "rnd x = x" by auto
      have e1: "rnd (rnd (2 * x) + (- 1)) = 2 * x - 1" using 1 2 by simp
      have e2: "(1 / 2) * (2 * x - 1) = x - 1 / 2" by (simp add: algebra_simps)
      have "rnd (rnd ((1 / 2) * rnd (rnd (2 * x) + (- 1))) + 1 / 2)
              = rnd (rnd ((1 / 2) * (2 * x - 1)) + 1 / 2)"
        by (simp only: e1)
      also have "\<dots> = rnd (rnd (x - 1 / 2) + 1 / 2)" by (simp only: e2)
      also have "\<dots> = rnd (x - 1 / 2 + 1 / 2)" by (simp only: 3)
      also have "\<dots> = rnd x" by simp
      also have "\<dots> = x" by (rule 4)
      finally show ?thesis .
    qed
    then show ?thesis
      by (simp add: StandardiseLayer_call_def DestandardiseLayer_call_def map_idI)
  qed
  have "DestandardiseLayer_call (\<lambda>v. v) (StandardiseLayer_call (\<lambda>v. v) inputs) = inputs"
    by (rule gen) simp
  with gen show ?thesis
    by (simp add: StandardiseLayer_get_config_def DestandardiseLayer_get_config_def)
qed

theorem round_trip_when_exact_witness:
  "float32_round (2 * (1 / 4)) = 2 * (1 / 4) \<and> float32_round (2 * (1 / 4) - 1) = 2 * (1 / 4) - 1
   \<and> float32_round (1 / 4 - 1 / 2) = 1 / 4 - 1 / 2 \<and> float32_round (1 / 4) = 1 / 4
   \<and> DestandardiseLayer_call float32_round (StandardiseLayer_call float32_round [1 / 4])
       = [1 / 4]"
proof -
  note v = r6 r4 r7 r8
  have e: "float32_round (2 * (1 / 4)) = 2 * (1 / 4)"
    "float32_round (2 * (1 / 4) - 1) = 2 * (1 / 4) - 1"
    "float32_round (1 / 4 - 1 / 2) = 1 / 4 - 1 / 2" "float32_round (1 / 4) = 1 / 4"
    using v by simp_all
  with round_trip_when_exact [of "[1 / 4]" float32_round] show ?thesis by simp
qed

section \<open>Properties of the data loader\<close>

lemma read_pairs_Inr:
  "read_pairs fs ps = Inr shapes \<Longrightarrow>
   list_all2 (\<lambda>p s. pair_shapes fs p = Some (s, s)) ps shapes"
proof (induction ps arbitrary: shapes)
  case Nil
  then show ?case by simp
next
  case (Cons p ps)
  then show ?case
    by (auto simp: pair_shapes_def split: sum.splits if_splits)
qed

lemma read_pairs_ok:
  "\<forall>p \<in> set ps. \<exists>s. pair_shapes fs p = Some (s, s) \<Longrightarrow>
   \<exists>shapes. read_pairs fs ps = Inr shapes"
proof (induction ps)
  case Nil
  then show ?case by simp
next
  case (Cons p ps)
  then show ?case
    by (auto simp: pair_shapes_def split: sum.splits)
qed

lemma read_pairs_first_mismatch:
  assumes "\<forall>q \<in> set pre. \<exists>s. pair_shapes fs q = Some (s, s)"
    and "read_pair fs p = Inr (raw_file, raw, gt_file, gt)" and "raw \<noteq> gt"
  shows "read_pairs fs (pre @ p # post)
           = Inl (ShapeMismatch (path_text raw_file) raw (path_text gt_file) gt)"
  using assms
proof (induction pre)
  case Nil
  then show ?case by simp
next
  case (Cons q pre)
  then show ?case
    by (auto simp: pair_shapes_def split: sum.splits)
qed

lemma read_pairs_some_mismatch:
  assumes "p \<in> set ps" and "pair_shapes fs p = Some (raw, gt)" and "raw \<noteq> gt"
  shows "isl (read_pairs fs ps)"
  using assms
proof (induction ps)
  case Nil
  then show ?case by simp
next
  case (Cons q ps)
  then show ?case
    by (auto simp: pair_shapes_def split: sum.splits)
qed

lemma check_ndims_Inr:
  "check_ndims shapes = Inr u \<longleftrightarrow> (\<forall>s \<in> set shapes. length s = length (hd shapes))"
  by (auto simp: check_ndims_def)

lemma verify_pairs_Inr:
  assumes "verify_pairs fs ps = Inr m"
  shows "\<exists>shapes. read_pairs fs ps = Inr shapes \<and> shapes \<noteq> []
           \<and> (\<forall>s \<in> set shapes. length s = length (hd shapes))
           \<and> min_fold (hd shapes) shapes = Inr m"
  using assms
  by (auto simp: verify_pairs_def check_ndims_def split: sum.splits if_splits)

lemma load_data_paths_Some:
  assumes "load_data_paths fs config data_type = Inr (Some (ps, m))"
  shows "verify_pairs fs ps = Inr m \<and> ps \<noteq> []"
  using assms
  by (auto simp: load_data_paths_def Let_def split: sum.splits if_splits option.splits json.splits)

lemma list_all2_setD1:
  "list_all2 P xs ys \<Longrightarrow> x \<in> set xs \<Longrightarrow> \<exists>y \<in> set ys. P x y"
  by (induction rule: list_all2_induct) auto

lemma verify_pairs_dimension_mismatch:
  assumes all: "\<forall>p \<in> set ps. \<exists>s. pair_shapes fs p = Some (s, s)"
    and p: "p \<in> set ps" "pair_shapes fs p = Some (s, s)"
    and q: "q \<in> set ps" "pair_shapes fs q = Some (t, t)"
    and ne: "length s \<noteq> length t"
  shows "verify_pairs fs ps = Inl DimensionMismatch"
proof -
  from read_pairs_ok [OF all] obtain shapes where r: "read_pairs fs ps = Inr shapes" by blast
  from read_pairs_Inr [OF r]
  have rel: "list_all2 (\<lambda>p s. pair_shapes fs p = Some (s, s)) ps shapes" .
  from list_all2_setD1 [OF rel p(1)] p(2) have s: "s \<in> set shapes" by auto
  from list_all2_setD1 [OF rel q(1)] q(2) have t: "t \<in> set shapes" by auto
  from s t ne have "\<exists>u \<in> set shapes. length u \<noteq> length (hd shapes)" by metis
  then show ?thesis by (simp add: verify_pairs_def r check_ndims_def)
qed

lemma verify_pairs_checked:
  assumes "verify_pairs fs ps = Inr m"
  shows "(\<forall>p \<in> set ps. \<exists>s. pair_shapes fs p = Some (s, s))
         \<and> (\<forall>p \<in> set ps. \<forall>q \<in> set ps. \<forall>s t.
               pair_shapes fs p = Some (s, s) \<and> pair_shapes fs q = Some (t, t) \<longrightarrow>
               length s = length t)"
proof -
  from verify_pairs_Inr [OF assms] obtain shapes where r: "read_pairs fs ps = Inr shapes"
    and len: "\<forall>s \<in> set shapes. length s = length (hd shapes)" by blast
  from read_pairs_Inr [OF r]
  have rel: "list_all2 (\<lambda>p s. pair_shapes fs p = Some (s, s)) ps shapes" .
  have in_shapes: "s \<in> set shapes" if "p \<in> set ps" "pair_shapes fs p = Some (s, s)" for p s
    using list_all2_setD1 [OF rel that(1)] that(2) by auto
  have "\<exists>s. pair_shapes fs p = Some (s, s)" if "p \<in> set ps" for p
    using list_all2_setD1 [OF rel that] by blast
  moreover have "length s = length t"
    if "p \<in> set ps" "q \<in> set ps" "pair_shapes fs p = Some (s, s)"
      "pair_shapes fs q = Some (t, t)" for p q s t
    using in_shapes [OF that(1,3)] in_shapes [OF that(2,4)] len by simp
  ultimately show ?thesis by blast
qed

lemma example_sorted:
  "sort (glob_tif example_files ''raw'') = [''raw/a.tif'', ''raw/b.tif'', ''raw/c.tif'']"
  "sort (glob_tif example_files ''gt'') = [''gt/a.tif'', ''gt/b.tif'', ''gt/c.tif'']"
  by (simp_all add: example_files_def)

lemma example_verify:
  "verify_pairs example_files
     [image_pair ''x_raw.tif'' ''x_gt.tif'', image_pair ''raw/a.tif'' ''gt/a.tif'',
      image_pair ''raw/b.tif'' ''gt/b.tif'', image_pair ''raw/c.tif'' ''gt/c.tif'']
   = Inr [8, 100, 90]"
  by (simp add: verify_pairs_def read_pair_def image_pair_def imread_def example_files_def
        example_shapes_def check_ndims_def np_minimum_def)

lemma example_pair_shapes:
  "pair_shapes example_files (image_pair ''raw/a.tif'' ''gt/a.tif'')
     = Some ([10, 100, 100], [10, 100, 100])"
  "read_pair example_files (image_pair ''x_raw.tif'' ''bad_gt.tif'')
     = Inr (JString ''x_raw.tif'', [9, 200, 200], JString ''bad_gt.tif'', [9, 200, 100])"
  "pair_shapes example_files (image_pair ''flat.tif'' ''flat.tif'') = Some ([64, 64], [64, 64])"
  by (simp_all add: pair_shapes_def read_pair_def image_pair_def imread_def example_files_def
        example_shapes_def)





lemma elementwise_minimum_length [simp]: "length (elementwise_minimum shapes n) = n"
  by (simp add: elementwise_minimum_def)





lemma read_pairs_length: "read_pairs fs ps = Inr shapes \<Longrightarrow> length shapes = length ps"
  by (induction ps arbitrary: shapes) (auto split: sum.splits if_splits)

















subsection \<open>The resolved input shape\<close>



subsection \<open>Shape and dimension checks\<close>

text \<open>
  C6: the verification raises the shape error, with the two paths and the two shapes of
  the pair, at the first pair whose raw and ground-truth shapes differ; whenever some pair
  has differing shapes the verification ends in an error; when every pair has equal
  shapes and two pairs differ in their number of dimensions it raises the dimension error.
  Both checks precede the minimum fold: a minimal shape is returned only when every pair
  passed both, and \<^verbatim>\<open>load_data_paths\<close> returns a list of pairs only with the minimal
  shape that this verification gives for it.
\<close>

theorem shape_and_dimension_checks:
  "((\<forall>q \<in> set pre. \<exists>s. pair_shapes fs q = Some (s, s))
      \<and> read_pair fs p = Inr (raw_file, raw, gt_file, gt) \<and> raw \<noteq> gt \<longrightarrow>
      verify_pairs fs (pre @ p # post)
      = Inl (ShapeMismatch (path_text raw_file) raw (path_text gt_file) gt))
   \<and> ((\<exists>p \<in> set ps. \<exists>raw gt. pair_shapes fs p = Some (raw, gt) \<and> raw \<noteq> gt) \<longrightarrow>
        isl (verify_pairs fs ps))
   \<and> ((\<forall>p \<in> set ps. \<exists>s. pair_shapes fs p = Some (s, s))
        \<and> (\<exists>p \<in> set ps. \<exists>q \<in> set ps. \<exists>s t.
              pair_shapes fs p = Some (s, s) \<and> pair_shapes fs q = Some (t, t)
              \<and> length s \<noteq> length t) \<longrightarrow>
        verify_pairs fs ps = Inl DimensionMismatch)
   \<and> (\<forall>m. verify_pairs fs ps = Inr m \<longrightarrow>
          (\<forall>p \<in> set ps. \<exists>s. pair_shapes fs p = Some (s, s))
          \<and> (\<forall>p \<in> set ps. \<forall>q \<in> set ps. \<forall>s t.
                pair_shapes fs p = Some (s, s) \<and> pair_shapes fs q = Some (t, t) \<longrightarrow>
                length s = length t))
   \<and> (\<forall>m. load_data_paths fs config data_type = Inr (Some (ps, m)) \<longrightarrow>
          verify_pairs fs ps = Inr m)
   \<and> (map_of config (data_type @ ''_data_dir'') = None
        \<and> map_of config (data_type @ ''_image_pairs'') = Some (JArray ps) \<and> ps \<noteq> [] \<longrightarrow>
        load_data_paths fs config data_type
        = (case verify_pairs fs ps of Inl e \<Rightarrow> Inl e | Inr m \<Rightarrow> Inr (Some (ps, m))))"
proof -
  have c1: "(\<forall>q \<in> set pre. \<exists>s. pair_shapes fs q = Some (s, s))
      \<and> read_pair fs p = Inr (raw_file, raw, gt_file, gt) \<and> raw \<noteq> gt \<longrightarrow>
      verify_pairs fs (pre @ p # post)
      = Inl (ShapeMismatch (path_text raw_file) raw (path_text gt_file) gt)"
    by (simp add: verify_pairs_def read_pairs_first_mismatch)
  have c2: "(\<exists>p \<in> set ps. \<exists>raw gt. pair_shapes fs p = Some (raw, gt) \<and> raw \<noteq> gt) \<longrightarrow>
        isl (verify_pairs fs ps)"
  proof
    assume "\<exists>p \<in> set ps. \<exists>raw gt. pair_shapes fs p = Some (raw, gt) \<and> raw \<noteq> gt"
    then have "isl (read_pairs fs ps)" using read_pairs_some_mismatch by blast
    then show "isl (verify_pairs fs ps)"
      by (auto simp: verify_pairs_def split: sum.splits)
  qed
  have c3: "(\<forall>p \<in> set ps. \<exists>s. pair_shapes fs p = Some (s, s))
        \<and> (\<exists>p \<in> set ps. \<exists>q \<in> set ps. \<exists>s t.
              pair_shapes fs p = Some (s, s) \<and> pair_shapes fs q = Some (t, t)
              \<and> length s \<noteq> length t) \<longrightarrow>
        verify_pairs fs ps = Inl DimensionMismatch"
    using verify_pairs_dimension_mismatch by blast
  have c4: "\<forall>m. verify_pairs fs ps = Inr m \<longrightarrow>
          (\<forall>p \<in> set ps. \<exists>s. pair_shapes fs p = Some (s, s))
          \<and> (\<forall>p \<in> set ps. \<forall>q \<in> set ps. \<forall>s t.
                pair_shapes fs p = Some (s, s) \<and> pair_shapes fs q = Some (t, t) \<longrightarrow>
                length s = length t)"
    using verify_pairs_checked by blast
  have c5: "\<forall>m. load_data_paths fs config data_type = Inr (Some (ps, m)) \<longrightarrow>
          verify_pairs fs ps = Inr m"
    using load_data_paths_Some by blast
  have c6: "map_of config (data_type @ ''_data_dir'') = None
        \<and> map_of config (data_type @ ''_image_pairs'') = Some (JArray ps) \<and> ps \<noteq> [] \<longrightarrow>
        load_data_paths fs config data_type
        = (case verify_pairs fs ps of Inl e \<Rightarrow> Inl e | Inr m \<Rightarrow> Inr (Some (ps, m)))"
    by (simp add: load_data_paths_def)
  show ?thesis
    by (intro conjI) (rule c1, rule c2, rule c3, rule c4, rule c5, rule c6)
qed

theorem shape_and_dimension_checks_witness:
  "verify_pairs example_files
     [image_pair ''raw/a.tif'' ''gt/a.tif'', image_pair ''x_raw.tif'' ''bad_gt.tif'',
      image_pair ''flat.tif'' ''flat.tif'']
   = Inl (ShapeMismatch ''x_raw.tif'' [9, 200, 200] ''bad_gt.tif'' [9, 200, 100])
   \<and> verify_pairs example_files
       [image_pair ''raw/a.tif'' ''gt/a.tif'', image_pair ''flat.tif'' ''flat.tif'']
     = Inl DimensionMismatch"
proof -
  let ?a = "image_pair ''raw/a.tif'' ''gt/a.tif''"
  let ?f = "image_pair ''flat.tif'' ''flat.tif''"
  have 1: "verify_pairs example_files
     ([?a] @ image_pair ''x_raw.tif'' ''bad_gt.tif'' # [?f])
   = Inl (ShapeMismatch ''x_raw.tif'' [9, 200, 200] ''bad_gt.tif'' [9, 200, 100])"
    using shape_and_dimension_checks [of "[?a]" example_files
            "image_pair ''x_raw.tif'' ''bad_gt.tif''" "JString ''x_raw.tif''" "[9, 200, 200]"
            "JString ''bad_gt.tif''" "[9, 200, 100]" "[?f]"]
    by (simp add: example_pair_shapes path_text_def)
  have 2: "verify_pairs example_files [?a, ?f] = Inl DimensionMismatch"
    using shape_and_dimension_checks [where fs = example_files and ps = "[?a, ?f]"]
      example_pair_shapes(1,3)
    by (auto simp: image_pair_def)
  from 1 2 show ?thesis by simp
qed

subsection \<open>A split without data\<close>

text \<open>
  C8, as stated: a split whose image-pair list and data directory both yield no pairs
  gives \<open>(None, None)\<close>. A configured data directory without any TIFF file in its raw
  directory makes the loader raise instead.
\<close>

theorem empty_data_dir_raises_counterexample:
  "load_data_paths empty_dirs
     [(''validation_data_dir'', JObject [(''raw'', JString ''raw''), (''gt'', JString ''gt'')])]
     ''validation''
   = Inl (NoTiffFound ''raw'')"
  by (simp add: load_data_paths_def data_dir_pairs_def empty_dirs_def)

text \<open>
  C8, amended: the loader returns \<open>(None, None)\<close> when the configuration has no data
  directory for the split and the split's image-pair list is absent or empty; when a data
  directory is configured and its raw directory holds no TIFF file, the loader raises
  \<^verbatim>\<open>RuntimeError('No TIFF file found in ...')\<close>.
\<close>

theorem absent_split_returns_none:
  "(map_of config (data_type @ ''_data_dir'') = None
      \<and> map_of config (data_type @ ''_image_pairs'') \<in> {None, Some (JArray [])} \<longrightarrow>
      load_data_paths fs config data_type = Inr None)
   \<and> (map_of config (data_type @ ''_data_dir'')
         = Some (JObject [(''raw'', JString raw_dir), (''gt'', JString gt_dir)])
       \<and> glob_tif fs raw_dir = [] \<longrightarrow>
      load_data_paths fs config data_type = Inl (NoTiffFound raw_dir))"
  by (auto simp: load_data_paths_def data_dir_pairs_def)

theorem absent_split_returns_none_witness:
  "load_data_paths empty_dirs [(''training_image_pairs'', JArray [image_pair ''a'' ''b''])]
     ''validation'' = Inr None
   \<and> load_data_paths empty_dirs [(''validation_image_pairs'', JArray [])] ''validation''
     = Inr None"
  using absent_split_returns_none [of "[(''training_image_pairs'', JArray [image_pair ''a'' ''b''])]"
          "''validation''" empty_dirs]
    absent_split_returns_none [of "[(''validation_image_pairs'', JArray [])]"
          "''validation''" empty_dirs]
  by simp

subsection \<open>Explicit pairs and a data directory together\<close>

text \<open>
  C10: when the configuration gives a split both an explicit list of image pairs and a
  data directory, the loader uses both: the raw and the ground-truth directory are each
  globbed for \<^verbatim>\<open>*.tif\<close> and sorted, an empty raw directory and two directories with
  different numbers of files are errors, and otherwise the resolved list is the explicit
  pairs followed by the files of the two directories paired by position; the verification
  and the minimum fold run over that list, which is returned with the minimal shape.
\<close>

theorem explicit_pairs_then_directory_pairs:
  "map_of config (data_type @ ''_image_pairs'') = Some (JArray explicit_pairs)
   \<and> map_of config (data_type @ ''_data_dir'')
       = Some (JObject [(''raw'', JString raw_dir), (''gt'', JString gt_dir)])
   \<longrightarrow>
   (let raw_files = sort (glob_tif fs raw_dir);
        gt_files = sort (glob_tif fs gt_dir);
        combined = explicit_pairs @ map2 image_pair raw_files gt_files
    in (raw_files = [] \<longrightarrow> load_data_paths fs config data_type = Inl (NoTiffFound raw_dir))
     \<and> (raw_files \<noteq> [] \<and> length raw_files \<noteq> length gt_files \<longrightarrow>
          load_data_paths fs config data_type = Inl (FileCountMismatch raw_dir gt_dir))
     \<and> (raw_files \<noteq> [] \<and> length raw_files = length gt_files \<longrightarrow>
          load_data_paths fs config data_type
          = (case verify_pairs fs combined of
               Inl e \<Rightarrow> Inl e
             | Inr min_input_shape \<Rightarrow> Inr (Some (combined, min_input_shape)))))"
proof (intro impI)
  assume a: "map_of config (data_type @ ''_image_pairs'') = Some (JArray explicit_pairs)
   \<and> map_of config (data_type @ ''_data_dir'')
       = Some (JObject [(''raw'', JString raw_dir), (''gt'', JString gt_dir)])"
  define raw_files where "raw_files = sort (glob_tif fs raw_dir)"
  define gt_files where "gt_files = sort (glob_tif fs gt_dir)"
  have d: "data_dir_pairs fs (JObject [(''raw'', JString raw_dir), (''gt'', JString gt_dir)])
            = (if raw_files = [] then Inl (NoTiffFound raw_dir)
               else if length raw_files \<noteq> length gt_files
               then Inl (FileCountMismatch raw_dir gt_dir)
               else Inr (map2 image_pair raw_files gt_files))"
    by (simp add: data_dir_pairs_def raw_files_def gt_files_def Let_def)
  have ne: "raw_files \<noteq> [] \<Longrightarrow> length raw_files = length gt_files \<Longrightarrow>
              explicit_pairs @ map2 image_pair raw_files gt_files \<noteq> []"
    by (cases raw_files; cases gt_files) simp_all
  have "(raw_files = [] \<longrightarrow> load_data_paths fs config data_type = Inl (NoTiffFound raw_dir))
     \<and> (raw_files \<noteq> [] \<and> length raw_files \<noteq> length gt_files \<longrightarrow>
          load_data_paths fs config data_type = Inl (FileCountMismatch raw_dir gt_dir))
     \<and> (raw_files \<noteq> [] \<and> length raw_files = length gt_files \<longrightarrow>
          load_data_paths fs config data_type
          = (case verify_pairs fs (explicit_pairs @ map2 image_pair raw_files gt_files) of
               Inl e \<Rightarrow> Inl e
             | Inr min_input_shape \<Rightarrow>
                 Inr (Some (explicit_pairs @ map2 image_pair raw_files gt_files,
                            min_input_shape))))"
    using a ne by (simp add: load_data_paths_def d append_pairs_def)
  then show "let raw_files = sort (glob_tif fs raw_dir);
        gt_files = sort (glob_tif fs gt_dir);
        combined = explicit_pairs @ map2 image_pair raw_files gt_files
    in (raw_files = [] \<longrightarrow> load_data_paths fs config data_type = Inl (NoTiffFound raw_dir))
     \<and> (raw_files \<noteq> [] \<and> length raw_files \<noteq> length gt_files \<longrightarrow>
          load_data_paths fs config data_type = Inl (FileCountMismatch raw_dir gt_dir))
     \<and> (raw_files \<noteq> [] \<and> length raw_files = length gt_files \<longrightarrow>
          load_data_paths fs config data_type
          = (case verify_pairs fs combined of
               Inl e \<Rightarrow> Inl e
             | Inr min_input_shape \<Rightarrow> Inr (Some (combined, min_input_shape))))"
    unfolding raw_files_def gt_files_def Let_def .
qed

theorem explicit_pairs_then_directory_pairs_witness:
  "load_data_paths example_files example_config ''training''
   = Inr (Some ([image_pair ''x_raw.tif'' ''x_gt.tif'', image_pair ''raw/a.tif'' ''gt/a.tif'',
                 image_pair ''raw/b.tif'' ''gt/b.tif'', image_pair ''raw/c.tif'' ''gt/c.tif''],
                [8, 100, 90]))"
  using explicit_pairs_then_directory_pairs
          [of example_config "''training''" "[image_pair ''x_raw.tif'' ''x_gt.tif'']"
             "''raw''" "''gt''" example_files]
  by (simp add: example_sorted example_verify Let_def) (simp add: example_config_def)

section \<open>Properties of the configuration validator\<close>








subsection \<open>Rejected configurations and defaults\<close>



end
